theory Spec2Isabelle
  imports Complex_Main "HOL-Library.AList" "HOL-Library.Word"
begin

section \<open>JavaScript values and built-in functions\<close>

text \<open>
  A JavaScript string is modelled as a \<^typ>\<open>string\<close> holding its UTF-8 octets; every
  character the code inspects (\<open>/\<close>, \<open>.\<close>, \<open>%\<close>, \<open><\<close>, the letters of the image
  extensions) is ASCII, so it is one octet here and one code unit there. An exception is a
  value of \<open>js_error\<close>; a function that can throw returns \<open>js_error + 'a\<close> with
  \<open>Inl\<close> for the exception.
\<close>

datatype js_error = TypeError | URIError | SyntaxError | RangeError | Error string

type_synonym Buffer = "8 word list"

datatype log_level = Debug | Info | Warn | LogError

type_synonym log_entry = "log_level \<times> string"

subsection \<open>String methods\<close>

definition startsWith :: "string \<Rightarrow> string \<Rightarrow> bool" where
  "startsWith s p = (take (length p) s = p)"

definition endsWith :: "string \<Rightarrow> string \<Rightarrow> bool" where
  "endsWith s p = (length p \<le> length s \<and> drop (length s - length p) s = p)"

text \<open>\<open>s.replace(pat, '')\<close> with a string pattern: the first occurrence is removed.\<close>

fun replace_first_empty :: "string \<Rightarrow> string \<Rightarrow> string" where
  "replace_first_empty pat [] = []"
| "replace_first_empty pat (c # cs) =
     (if startsWith (c # cs) pat then drop (length pat) (c # cs)
      else c # replace_first_empty pat cs)"

text \<open>\<open>s.replace(/^\/+/, '')\<close>: the leading slashes are removed.\<close>

definition strip_leading_slashes :: "string \<Rightarrow> string" where
  "strip_leading_slashes s = dropWhile (\<lambda>c. c = CHR ''/'') s"

definition upper_letters :: string where
  "upper_letters = ''ABCDEFGHIJKLMNOPQRSTUVWXYZ''"

definition lower_letters :: string where
  "lower_letters = ''abcdefghijklmnopqrstuvwxyz''"

definition toLowerCase_char :: "char \<Rightarrow> char" where
  "toLowerCase_char c =
     (case map_of (zip upper_letters lower_letters) c of Some l \<Rightarrow> l | None \<Rightarrow> c)"

text \<open>
  \<open>toLowerCase\<close> on the ASCII letters. The code lower-cases only an extension that is
  then compared with ASCII literals, and no character outside ASCII lower-cases to an
  ASCII letter sequence equal to one of them.
\<close>

definition toLowerCase :: "string \<Rightarrow> string" where
  "toLowerCase s = map toLowerCase_char s"

definition is_space :: "char \<Rightarrow> bool" where
  "is_space c = (c \<in> set [CHR '' '', CHR 0x09, CHR 0x0A, CHR 0x0B, CHR 0x0C, CHR 0x0D])"

text \<open>\<open>trim\<close>, on ASCII white space.\<close>

definition trim :: "string \<Rightarrow> string" where
  "trim s = rev (dropWhile is_space (rev (dropWhile is_space s)))"

definition digit_chars :: string where
  "digit_chars = ''0123456789''"

text \<open>The decimal text of a non-negative integer, as a template literal prints it.\<close>

fun decimal :: "nat \<Rightarrow> string" where
  "decimal n =
     (if n < 10 then [digit_chars ! n] else decimal (n div 10) @ [digit_chars ! (n mod 10)])"

declare decimal.simps [simp del]

subsection \<open>\<open>path.extname\<close> (POSIX)\<close>

definition basename_part :: "string \<Rightarrow> string" where
  "basename_part p =
     (let q = dropWhile (\<lambda>c. c = CHR ''/'') (rev p)
      in rev (takeWhile (\<lambda>c. c \<noteq> CHR ''/'') q))"

text \<open>
  Node's \<open>path.extname\<close>: the text from the last dot of the last path segment to its end;
  empty when that segment has no dot, when its only dot is its first character, and for
  the segment \<open>..\<close>.
\<close>

definition extname :: "string \<Rightarrow> string" where
  "extname p =
     (let b = basename_part p;
          after = takeWhile (\<lambda>c. c \<noteq> CHR ''.'') (rev b)
      in if CHR ''.'' \<notin> set b then []
         else if length b - length after - 1 = 0 then []
         else if b = ''..'' then []
         else drop (length b - length after - 1) b)"

subsection \<open>\<open>decodeURIComponent\<close> and \<open>encodeURIComponent\<close>\<close>

definition hex_value :: "char \<Rightarrow> nat option" where
  "hex_value c = map_of
     [(CHR ''0'', 0), (CHR ''1'', 1), (CHR ''2'', 2), (CHR ''3'', 3), (CHR ''4'', 4),
      (CHR ''5'', 5), (CHR ''6'', 6), (CHR ''7'', 7), (CHR ''8'', 8), (CHR ''9'', 9),
      (CHR ''a'', 10), (CHR ''b'', 11), (CHR ''c'', 12), (CHR ''d'', 13), (CHR ''e'', 14),
      (CHR ''f'', 15), (CHR ''A'', 10), (CHR ''B'', 11), (CHR ''C'', 12), (CHR ''D'', 13),
      (CHR ''E'', 14), (CHR ''F'', 15)] c"

text \<open>One escape \<open>%XY\<close> at the head of the text: its octet and the text after it.\<close>

fun read_escape :: "string \<Rightarrow> (nat \<times> string) option" where
  "read_escape (p # a # b # rest) =
     (if p = CHR ''%'' then
        (case hex_value a of
           None \<Rightarrow> None
         | Some x \<Rightarrow> (case hex_value b of None \<Rightarrow> None | Some y \<Rightarrow> Some (16 * x + y, rest)))
      else None)"
| "read_escape s = None"

text \<open>The \<open>k\<close> continuation octets \<open>10xxxxxx\<close> of a multi-octet character, each escaped.\<close>

fun read_continuations :: "nat \<Rightarrow> string \<Rightarrow> (nat list \<times> string) option" where
  "read_continuations 0 s = Some ([], s)"
| "read_continuations (Suc k) s =
     (case read_escape s of
        None \<Rightarrow> None
      | Some (b, rest) \<Rightarrow>
          if 128 \<le> b \<and> b < 192 then
            (case read_continuations k rest of
               None \<Rightarrow> None
             | Some (bs, r) \<Rightarrow> Some (b # bs, r))
          else None)"

definition utf8_length :: "nat \<Rightarrow> nat option" where
  "utf8_length b =
     (if 192 \<le> b \<and> b < 224 then Some 2
      else if 224 \<le> b \<and> b < 240 then Some 3
      else if 240 \<le> b \<and> b < 248 then Some 4
      else None)"

text \<open>
  Whether the octets of one character are well-formed UTF-8: no overlong form, no
  surrogate, nothing above U+10FFFF.
\<close>

fun valid_utf8 :: "nat list \<Rightarrow> bool" where
  "valid_utf8 [b0, b1] = (194 \<le> b0)"
| "valid_utf8 [b0, b1, b2] =
     (if b0 = 224 then 160 \<le> b1 else if b0 = 237 then b1 < 160 else True)"
| "valid_utf8 [b0, b1, b2, b3] =
     (if b0 = 240 then 144 \<le> b1 else if b0 = 244 then b1 < 144 else b0 < 244)"
| "valid_utf8 bs = False"

lemma read_escape_length:
  "read_escape s = Some (b, rest) \<Longrightarrow> length rest < length s"
  by (induction s rule: read_escape.induct) (auto split: if_splits option.splits)

lemma read_continuations_length:
  "read_continuations k s = Some (bs, rest) \<Longrightarrow> length rest \<le> length s"
proof (induction k arbitrary: s bs rest)
  case 0
  then show ?case by simp
next
  case (Suc k)
  then show ?case
    by (fastforce split: option.splits if_splits dest: read_escape_length)
qed

function decodeURIComponent :: "string \<Rightarrow> js_error + string" where
  "decodeURIComponent [] = Inr []"
| "decodeURIComponent (c # cs) =
     (if c \<noteq> CHR ''%'' then
        (case decodeURIComponent cs of Inl e \<Rightarrow> Inl e | Inr r \<Rightarrow> Inr (c # r))
      else
        (case read_escape (c # cs) of
           None \<Rightarrow> Inl URIError
         | Some (b, rest) \<Rightarrow>
             if b < 128 then
               (case decodeURIComponent rest of
                  Inl e \<Rightarrow> Inl e
                | Inr r \<Rightarrow> Inr (char_of b # r))
             else
               (case utf8_length b of
                  None \<Rightarrow> Inl URIError
                | Some n \<Rightarrow>
                    (case read_continuations (n - 1) rest of
                       None \<Rightarrow> Inl URIError
                     | Some (bs, rest') \<Rightarrow>
                         if valid_utf8 (b # bs) then
                           (case decodeURIComponent rest' of
                              Inl e \<Rightarrow> Inl e
                            | Inr r \<Rightarrow> Inr (map char_of (b # bs) @ r))
                         else Inl URIError))))"
  by pat_completeness auto
termination
proof (relation "measure length")
  show "wf (measure length)" by simp
next
  fix c :: char and cs
  show "(cs, c # cs) \<in> measure length" by simp
next
  fix c :: char and cs x2 b rest
  assume "read_escape (c # cs) = Some x2" "(b, rest) = x2"
  then have "length rest < length (c # cs)"
    using read_escape_length [of "c # cs" b rest] by simp
  then show "(rest, c # cs) \<in> measure length" by simp
next
  fix c :: char and cs x2 b rest n x2a bs rest'
  assume "read_escape (c # cs) = Some x2" "(b, rest) = x2"
    and "read_continuations (n - 1) rest = Some x2a" "(bs, rest') = x2a"
  then have "length rest < length (c # cs)" "length rest' \<le> length rest"
    using read_escape_length [of "c # cs" b rest]
      read_continuations_length [of "n - 1" rest bs rest'] by simp_all
  then show "(rest', c # cs) \<in> measure length" by simp
qed

definition hex_digits :: string where
  "hex_digits = ''0123456789ABCDEF''"

definition unreserved :: "char \<Rightarrow> bool" where
  "unreserved c =
     (c \<in> set (upper_letters @ lower_letters @ digit_chars @ ''-_.!~*'' @ [CHR 0x27] @ ''()''))"

definition encode_octet :: "char \<Rightarrow> string" where
  "encode_octet c =
     (if unreserved c then [c]
      else [CHR ''%'', hex_digits ! (of_char c div 16), hex_digits ! (of_char c mod 16)])"

definition encodeURIComponent :: "string \<Rightarrow> string" where
  "encodeURIComponent s = concat (map encode_octet s)"

definition Buffer_from :: "string \<Rightarrow> Buffer" where
  "Buffer_from s = map (\<lambda>c. of_nat (of_char c)) s"

section \<open>Data model\<close>

record repositoryConfig =
  path :: string
  username :: string
  password :: string
  recursive :: bool
  exclude :: "string list option"

text \<open>
  The configuration fields the modelled functions read. A missing string field is the
  empty string (both are falsy); \<open>repositoryConfig\<close> and \<open>exclude\<close> may be absent.
\<close>

record Config =
  repositoryConfig :: "repositoryConfig option"
  updateInterval :: int
  listRefreshInterval :: int
  showWidth :: nat
  showHeight :: nat
  random :: bool
  startHidden :: bool
  startPaused :: bool
  enableGeocoding :: bool

record gps =
  latitude :: real
  longitude :: real

record ExifData =
  date :: "string option"
  location :: "string option"
  camera :: "string option"
  coordinates :: "gps option"

record ImageData =
  filename :: "string option"
  encodedData :: string
  exifData :: ExifData
  mimeType :: string
  size_bytes :: nat

text \<open>
  The payload of \<open>FETCH_IMAGE\<close>. Its \<open>filename\<close> is \<open>imageList[targetIndex]\<close>, which is
  \<open>undefined\<close> (\<open>None\<close>) when the index is outside the list.
\<close>

record ImageRequest =
  request_filename :: "string option"
  request_index :: int

record error_payload =
  message :: string
  details :: "js_error option"

text \<open>Socket notifications, in the two directions.\<close>

datatype to_module =
    ERROR error_payload
  | IMAGE_LIST_RECEIVED "string list"
  | IMAGE_DATA_RECEIVED ImageData
  | FETCH_PROGRESS string

datatype to_helper =
    INIT_CONFIG Config
  | FETCH_IMAGE_LIST
  | FETCH_IMAGE ImageRequest
  | OTHER string

record http_request =
  req_method :: string
  req_url :: string
  req_headers :: "(string \<times> string) list"
  req_timeout :: nat

record response =
  statusCode :: nat
  statusMessage :: string
  content_type :: "string option"

text \<open>The tags \<open>exif-parser\<close> returns that the code reads.\<close>

record exif_tags =
  DateTimeOriginal :: "int option"
  GPSLatitude :: "real option"
  GPSLongitude :: "real option"
  Make :: "string option"
  Model :: "string option"

text \<open>
  What the code calls and this repository does not define: the URL parser, the regular
  expression engine, base64, the EXIF parser, the date formatter and the JSON parser.
  \<open>url_pathname u\<close> is \<open>new URL(u).pathname\<close>, \<open>None\<close> when the constructor throws;
  \<open>regexp_i p\<close> is the \<open>test\<close> method of \<open>new RegExp(p, 'i')\<close>, \<open>None\<close> when the
  pattern is a syntax error; \<open>request_ok u\<close> says that \<open>https.request\<close> accepts the URL
  (it throws synchronously otherwise); \<open>exif_parse\<close> is \<open>exif.create(b).parse()\<close>, with
  the tags of the result if it has any; \<open>json_address\<close> is \<open>JSON.parse(body).address || {}\<close>,
  \<open>Inl\<close> when the parse throws or the document is \<open>null\<close>.
\<close>

record host =
  url_pathname :: "string \<Rightarrow> string option"
  regexp_i :: "string \<Rightarrow> (string \<Rightarrow> bool) option"
  request_ok :: "string \<Rightarrow> bool"
  base64 :: "Buffer \<Rightarrow> string"
  exif_parse :: "Buffer \<Rightarrow> js_error + exif_tags option"
  toISOString :: "int \<Rightarrow> string"
  json_address :: "string \<Rightarrow> js_error + (string \<Rightarrow> string option)"

record logging =
  logs :: "log_entry list"

text \<open>
  The node helper: its three fields, and what it has done so far: the notifications it has
  sent, the HTTPS requests it has issued and the geocoding lookups it has started.
  \<open>imageCache\<close> is the JavaScript \<open>Map\<close>, an association list in insertion order.

  The \<open>exifData\<close> record of a cache entry is an object: the geocoding handler writes its
  \<open>location\<close> after the entry was stored. Object identity is kept by numbering the
  records: \<open>nextObject\<close> is the number the next record created by \<open>extractExifData\<close>
  gets, \<open>exifObjects\<close> gives, for a cache key, the number of the record its entry was
  stored with, and a lookup carries the number of the record its promise writes to.
\<close>

record NodeHelper = logging +
  config :: "Config option"
  imageCache :: "(string \<times> ImageData) list"
  isInitialized :: bool
  sent :: "to_module list"
  requests :: "http_request list"
  geocodeLookups :: "(nat \<times> real \<times> real) list"
  nextObject :: nat
  exifObjects :: "(string \<times> nat) list"

text \<open>
  A call either returns a value or throws; the state it has reached is kept in both
  cases. \<open>try_catch\<close> is \<open>try { body } catch (error) { handler }\<close>.
\<close>

datatype ('a, 's) outcome = Returns 'a 's | Throws js_error 's

definition try_catch ::
  "('a, 's) outcome \<Rightarrow> (js_error \<Rightarrow> 's \<Rightarrow> ('a, 's) outcome) \<Rightarrow> ('a, 's) outcome" where
  "try_catch body handler =
     (case body of Returns a s \<Rightarrow> Returns a s | Throws e s \<Rightarrow> handler e s)"

definition Log :: "log_level \<Rightarrow> string \<Rightarrow> 'a logging_scheme \<Rightarrow> 'a logging_scheme" where
  "Log lvl msg s = s\<lparr>logs := logs s @ [(lvl, msg)]\<rparr>"

definition sendSocketNotification :: "to_module \<Rightarrow> NodeHelper \<Rightarrow> NodeHelper" where
  "sendSocketNotification n s = s\<lparr>sent := sent s @ [n]\<rparr>"

definition https_request :: "http_request \<Rightarrow> NodeHelper \<Rightarrow> NodeHelper" where
  "https_request r s = s\<lparr>requests := requests s @ [r]\<rparr>"

section \<open>The node helper (\<open>node_helper.js\<close>)\<close>

definition start :: NodeHelper where
  "start =
     \<lparr>logs = [(Info, ''Node helper started'')], config = None, imageCache = [],
      isInitialized = False, sent = [], requests = [], geocodeLookups = [],
      nextObject = 0, exifObjects = []\<rparr>"

definition validateConfiguration :: "host \<Rightarrow> NodeHelper \<Rightarrow> (unit, NodeHelper) outcome" where
  "validateConfiguration h s =
     (case config s of
        None \<Rightarrow> Throws TypeError s
      | Some c \<Rightarrow>
          (case repositoryConfig c of
             None \<Rightarrow> Throws (Error ''No repository path configured'') s
           | Some r \<Rightarrow>
               if path r = [] then Throws (Error ''No repository path configured'') s
               else if username r = [] \<or> password r = [] then
                 Throws (Error ''No authentication credentials provided'') s
               else
                 (case url_pathname h (path r) of
                    None \<Rightarrow> Throws (Error (''Invalid repository URL: '' @ path r)) s
                  | Some u \<Rightarrow> Returns () s)))"

definition handleConfigInit :: "host \<Rightarrow> Config \<Rightarrow> NodeHelper \<Rightarrow> (unit, NodeHelper) outcome" where
  "handleConfigInit h cfg s =
     try_catch
       (validateConfiguration h
          (Log Info ''Configuration initialized successfully''
             (s\<lparr>config := Some cfg, isInitialized := True\<rparr>)))
       (\<lambda>error s1. Returns ()
          (sendSocketNotification
             (ERROR \<lparr>message = ''Configuration initialization failed'', details = Some error\<rparr>)
             (Log LogError ''Failed to initialize configuration'' s1)))"

definition createAuthHeader :: "host \<Rightarrow> repositoryConfig \<Rightarrow> string" where
  "createAuthHeader h r =
     ''Basic '' @ base64 h (Buffer_from (username r @ '':'' @ password r))"

definition fetchImageList :: "host \<Rightarrow> NodeHelper \<Rightarrow> (unit, NodeHelper) outcome" where
  "fetchImageList h s =
     (if \<not> isInitialized s then
        Returns () (Log LogError ''Helper not initialized, cannot fetch image list'' s)
      else
        (let s1 = sendSocketNotification (FETCH_PROGRESS ''Connecting to Nextcloud...'')
                    (Log Info ''Fetching image list from Nextcloud...'' s)
         in case config s1 of
              None \<Rightarrow> Throws TypeError s1
            | Some c \<Rightarrow>
                (case repositoryConfig c of
                   None \<Rightarrow> Throws TypeError s1
                 | Some r \<Rightarrow>
                     if request_ok h (path r) then
                       Returns ()
                         (https_request
                            \<lparr>req_method = ''PROPFIND'', req_url = path r,
                             req_headers =
                               [(''Authorization'', createAuthHeader h r),
                                (''Depth'', if recursive r then ''infinity'' else ''1''),
                                (''Content-Type'', ''application/xml'')],
                             req_timeout = 30000\<rparr> s1)
                     else Throws TypeError s1)))"

text \<open>The \<open>error\<close> and \<open>timeout\<close> handlers of the listing request.\<close>

definition fetchImageList_on_error :: "js_error \<Rightarrow> NodeHelper \<Rightarrow> NodeHelper" where
  "fetchImageList_on_error error s =
     sendSocketNotification
       (ERROR \<lparr>message = ''Failed to connect to Nextcloud'', details = Some error\<rparr>)
       (Log LogError ''Network error while fetching image list'' s)"

definition fetchImageList_on_timeout :: "NodeHelper \<Rightarrow> NodeHelper" where
  "fetchImageList_on_timeout s =
     sendSocketNotification
       (ERROR \<lparr>message = ''Request timeout - Nextcloud server not responding'', details = None\<rparr>)
       (Log LogError ''Request timeout while fetching image list'' s)"

subsection \<open>Parsing the listing\<close>

text \<open>
  One match of \<open>/href>([^<]+)</\<close> at the head of the text: the group, and the text after
  the closing \<open><\<close>.
\<close>

definition href_match_at :: "string \<Rightarrow> (string \<times> string) option" where
  "href_match_at s =
     (let rest = drop 5 s;
          g = takeWhile (\<lambda>c. c \<noteq> CHR ''<'') rest;
          after = dropWhile (\<lambda>c. c \<noteq> CHR ''<'') rest
      in if startsWith s ''href>'' \<and> g \<noteq> [] \<and> after \<noteq> [] then Some (g, tl after) else None)"

lemma href_match_at_length:
  "href_match_at s = Some (g, rest) \<Longrightarrow> length rest < length s"
proof -
  assume a: "href_match_at s = Some (g, rest)"
  let ?after = "dropWhile (\<lambda>c. c \<noteq> CHR ''<'') (drop 5 s)"
  from a have ne: "?after \<noteq> []" and r: "rest = tl ?after"
    by (auto simp: href_match_at_def Let_def split: if_splits)
  have "length ?after \<le> length (drop 5 s)" by (rule length_dropWhile_le)
  moreover from ne have "length (tl ?after) < length ?after" by (cases ?after) auto
  ultimately show ?thesis using r by simp
qed

text \<open>\<open>responseBody.match(/href>([^<]+)</g)\<close>: the matches, left to right, none overlapping.\<close>

function match_all_href :: "string \<Rightarrow> string list" where
  "match_all_href [] = []"
| "match_all_href (c # cs) =
     (case href_match_at (c # cs) of
        Some (g, rest) \<Rightarrow> (''href>'' @ g @ ''<'') # match_all_href rest
      | None \<Rightarrow> match_all_href cs)"
  by pat_completeness auto
termination
proof (relation "measure length")
  show "wf (measure length)" by simp
next
  fix c :: char and cs
  show "(cs, c # cs) \<in> measure length" by simp
next
  fix c :: char and cs x2 g rest
  assume "href_match_at (c # cs) = Some x2" "(g, rest) = x2"
  then have "length rest < length (c # cs)"
    using href_match_at_length [of "c # cs" g rest] by simp
  then show "(rest, c # cs) \<in> measure length" by simp
qed

text \<open>\<open>match.replace(/href>([^<]+)</, '$1')\<close> on one such match: its group.\<close>

definition href_group :: "string \<Rightarrow> string" where
  "href_group m = (case href_match_at m of Some (g, rest) \<Rightarrow> g @ rest | None \<Rightarrow> m)"

definition imageExtensions :: "string list" where
  "imageExtensions =
     [''.jpg'', ''.jpeg'', ''.png'', ''.gif'', ''.bmp'', ''.webp'', ''.tiff'', ''.tif'']"

fun compile_patterns :: "host \<Rightarrow> string list \<Rightarrow> js_error + (string \<Rightarrow> bool) list" where
  "compile_patterns h [] = Inr []"
| "compile_patterns h (p # ps) =
     (case regexp_i h p of
        None \<Rightarrow> Inl SyntaxError
      | Some t \<Rightarrow>
          (case compile_patterns h ps of Inl e \<Rightarrow> Inl e | Inr ts \<Rightarrow> Inr (t # ts)))"

text \<open>The \<open>for\<close> loop over the matches; \<open>imageList\<close> is the list pushed to so far.\<close>

fun filter_hrefs ::
  "string \<Rightarrow> (string \<Rightarrow> bool) list \<Rightarrow> string list \<Rightarrow> string list \<Rightarrow> NodeHelper
   \<Rightarrow> (string list, NodeHelper) outcome" where
  "filter_hrefs basePath excludePatterns [] imageList s = Returns imageList s"
| "filter_hrefs basePath excludePatterns (m # matches) imageList s =
     (let href = href_group m
      in if href = basePath \<or> href = basePath @ ''/'' then
           filter_hrefs basePath excludePatterns matches imageList s
         else
           (case decodeURIComponent
                   (strip_leading_slashes (replace_first_empty basePath href)) of
              Inl e \<Rightarrow> Throws e s
            | Inr name \<Rightarrow>
                if name = [] \<or> endsWith name ''/'' then
                  filter_hrefs basePath excludePatterns matches imageList s
                else if \<not> List.member imageExtensions (toLowerCase (extname name)) then
                  filter_hrefs basePath excludePatterns matches imageList s
                else if list_ex (\<lambda>pattern. pattern name) excludePatterns then
                  filter_hrefs basePath excludePatterns matches imageList
                    (Log Debug (''Excluding file due to exclude pattern: '' @ name) s)
                else
                  filter_hrefs basePath excludePatterns matches (imageList @ [name]) s))"

definition parseImageListFromResponse_try ::
  "host \<Rightarrow> string \<Rightarrow> NodeHelper \<Rightarrow> (string list, NodeHelper) outcome" where
  "parseImageListFromResponse_try h responseBody s =
     (let hrefMatches = match_all_href responseBody
      in if hrefMatches = [] then
           Returns [] (Log Warn ''No href entries found in response'' s)
         else
           (case config s of
              None \<Rightarrow> Throws TypeError s
            | Some c \<Rightarrow>
                (case repositoryConfig c of
                   None \<Rightarrow> Throws TypeError s
                 | Some r \<Rightarrow>
                     (case url_pathname h (path r) of
                        None \<Rightarrow> Throws TypeError s
                      | Some basePath \<Rightarrow>
                          (case compile_patterns h
                                  (case exclude r of None \<Rightarrow> [] | Some ps \<Rightarrow> ps) of
                             Inl e \<Rightarrow> Throws e s
                           | Inr excludePatterns \<Rightarrow>
                               filter_hrefs basePath excludePatterns hrefMatches [] s)))))"

definition parseImageListFromResponse ::
  "host \<Rightarrow> string \<Rightarrow> NodeHelper \<Rightarrow> (string list, NodeHelper) outcome" where
  "parseImageListFromResponse h responseBody s =
     try_catch (parseImageListFromResponse_try h responseBody s)
       (\<lambda>error s1. Returns [] (Log LogError ''Error parsing image list'' s1))"

definition no_images_payload :: error_payload where
  "no_images_payload =
     \<lparr>message = ''No images found in the specified Nextcloud path'', details = None\<rparr>"

text \<open>The \<open>end\<close> handler of the listing response, \<open>body\<close> being the chunks received.\<close>

definition handleImageListResponse_end ::
  "host \<Rightarrow> response \<Rightarrow> string \<Rightarrow> NodeHelper \<Rightarrow> (unit, NodeHelper) outcome" where
  "handleImageListResponse_end h response body s =
     try_catch
       (if statusCode response \<ge> 400 then
          Throws (Error (''HTTP '' @ decimal (statusCode response) @ '': ''
                         @ statusMessage response)) s
        else
          (case parseImageListFromResponse h body s of
             Throws e s1 \<Rightarrow> Throws e s1
           | Returns imageList s1 \<Rightarrow>
               if length imageList = 0 then
                 Returns ()
                   (sendSocketNotification (ERROR no_images_payload)
                      (Log Warn ''No images found in the specified path'' s1))
               else
                 Returns ()
                   (sendSocketNotification (IMAGE_LIST_RECEIVED imageList)
                      (Log Info ''Successfully found images'' s1))))
       (\<lambda>error s1. Returns ()
          (sendSocketNotification
             (ERROR \<lparr>message = ''Failed to parse Nextcloud response'', details = Some error\<rparr>)
             (Log LogError ''Failed to parse image list'' s1)))"

definition handleImageListResponse_on_error :: "js_error \<Rightarrow> NodeHelper \<Rightarrow> NodeHelper" where
  "handleImageListResponse_on_error error s =
     sendSocketNotification
       (ERROR \<lparr>message = ''Error receiving data from Nextcloud'', details = Some error\<rparr>)
       (Log LogError ''Response error'' s)"

subsection \<open>Metadata extraction and geocoding\<close>

definition empty_exif :: ExifData where
  "empty_exif = \<lparr>date = None, location = None, camera = None, coordinates = None\<rparr>"

text \<open>
  \<open>new Date(t * 1000).toISOString()\<close> throws a \<open>RangeError\<close> outside the range of time
  values, 8.64e15 milliseconds either side of the epoch.
\<close>

definition extract_date :: "host \<Rightarrow> exif_tags \<Rightarrow> ExifData \<Rightarrow> js_error + ExifData" where
  "extract_date h tags x =
     (case DateTimeOriginal tags of
        None \<Rightarrow> Inr x
      | Some t \<Rightarrow>
          if t = 0 then Inr x
          else if \<bar>t * 1000\<bar> \<le> 8640000000000000 then
            Inr (x\<lparr>date := Some (toISOString h (t * 1000))\<rparr>)
          else Inl RangeError)"

definition string_or_empty :: "string option \<Rightarrow> string" where
  "string_or_empty v = (case v of None \<Rightarrow> [] | Some t \<Rightarrow> t)"

text \<open>
  The GPS block; a coordinate that is absent or 0 is falsy. \<open>reverseGeocode\<close> returns a
  promise and starts its request at once; the lookup is recorded with the number \<open>oid\<close>
  of the record being filled, and the promise is settled later by \<open>geocode_settled\<close>.
\<close>

definition extract_gps ::
  "nat \<Rightarrow> exif_tags \<Rightarrow> ExifData \<times> NodeHelper \<Rightarrow> (unit, ExifData \<times> NodeHelper) outcome" where
  "extract_gps oid tags xs =
     (case GPSLatitude tags of
        None \<Rightarrow> Returns () xs
      | Some lat \<Rightarrow>
          (case GPSLongitude tags of
             None \<Rightarrow> Returns () xs
           | Some lon \<Rightarrow>
               if lat = 0 \<or> lon = 0 then Returns () xs
               else
                 (let x1 = (fst xs)\<lparr>coordinates := Some \<lparr>latitude = lat, longitude = lon\<rparr>\<rparr>;
                      s = snd xs
                  in case config s of
                       None \<Rightarrow> Throws TypeError (x1, s)
                     | Some c \<Rightarrow>
                         if enableGeocoding c then
                           Returns ()
                             (x1, s\<lparr>geocodeLookups := geocodeLookups s @ [(oid, lat, lon)]\<rparr>)
                         else
                           Returns ()
                             (x1, Log Debug
                                    (''Geocoding disabled - GPS coordinates extracted ''
                                     @ ''but no location lookup performed'') s))))"

definition extract_camera :: "exif_tags \<Rightarrow> ExifData \<Rightarrow> ExifData" where
  "extract_camera tags x =
     (if string_or_empty (Make tags) \<noteq> [] \<or> string_or_empty (Model tags) \<noteq> [] then
        x\<lparr>camera := Some (trim (string_or_empty (Make tags) @ '' ''
                                @ string_or_empty (Model tags)))\<rparr>
      else x)"

definition extractExifData_try ::
  "host \<Rightarrow> nat \<Rightarrow> Buffer \<Rightarrow> ExifData \<times> NodeHelper
   \<Rightarrow> (unit, ExifData \<times> NodeHelper) outcome" where
  "extractExifData_try h oid buffer xs =
     (case exif_parse h buffer of
        Inl e \<Rightarrow> Throws e xs
      | Inr None \<Rightarrow> Returns () xs
      | Inr (Some tags) \<Rightarrow>
          (case extract_date h tags (fst xs) of
             Inl e \<Rightarrow> Throws e xs
           | Inr x1 \<Rightarrow>
               (case extract_gps oid tags (x1, snd xs) of
                  Throws e xs2 \<Rightarrow> Throws e xs2
                | Returns u (x2, s2) \<Rightarrow> Returns () (extract_camera tags x2, s2))))"

text \<open>
  \<open>extractExifData\<close>: a new record is created empty (it is record number
  \<open>nextObject s\<close>), the \<open>try\<close> block fills it, the \<open>catch\<close> block logs, and the record
  is returned as far as it was filled.
\<close>

definition extractExifData ::
  "host \<Rightarrow> Buffer \<Rightarrow> NodeHelper \<Rightarrow> (unit, ExifData \<times> NodeHelper) outcome" where
  "extractExifData h buffer s =
     try_catch
       (extractExifData_try h (nextObject s) buffer
          (empty_exif, s\<lparr>nextObject := Suc (nextObject s)\<rparr>))
       (\<lambda>error xs. Returns ()
          (fst xs, Log Debug ''EXIF extraction failed (this is normal for some images)''
                     (snd xs)))"

definition address_preference :: "string list" where
  "address_preference =
     [''city'', ''town'', ''village'', ''hamlet'', ''suburb'', ''neighbourhood'', ''county'',
      ''state'', ''country'']"

fun first_truthy :: "(string \<Rightarrow> string option) \<Rightarrow> string list \<Rightarrow> string option" where
  "first_truthy address [] = None"
| "first_truthy address (k # ks) =
     (case address k of
        None \<Rightarrow> first_truthy address ks
      | Some v \<Rightarrow> if v = [] then first_truthy address ks else Some v)"

text \<open>
  How the promise of \<open>reverseGeocode\<close> settles when the response has ended with \<open>body\<close>:
  \<open>Inr\<close> is \<open>resolve\<close>, \<open>Inl\<close> is \<open>reject\<close>. A request error rejects with that error and
  a timeout with \<open>Geocoding request timeout\<close>.
\<close>

definition reverseGeocode_end :: "host \<Rightarrow> string \<Rightarrow> js_error + string" where
  "reverseGeocode_end h body =
     (case json_address h body of
        Inl e \<Rightarrow> Inl (Error ''Failed to parse geocoding response'')
      | Inr address \<Rightarrow>
          (case first_truthy address address_preference of
             Some l \<Rightarrow> Inr l
           | None \<Rightarrow> Inl (Error ''No location found'')))"

definition reverseGeocode_timeout :: "js_error + string" where
  "reverseGeocode_timeout = Inl (Error ''Geocoding request timeout'')"

text \<open>
  \<open>exifData.location = location\<close> on record number \<open>oid\<close>, as the cache shows it: the
  entries stored with that record get the location.
\<close>

definition set_location_in_cache ::
  "nat \<Rightarrow> string \<Rightarrow> (string \<times> nat) list \<Rightarrow> (string \<times> ImageData) list
   \<Rightarrow> (string \<times> ImageData) list" where
  "set_location_in_cache oid l objects cache =
     map (\<lambda>entry.
            if map_of objects (fst entry) = Some oid then
              (fst entry, (snd entry)\<lparr>exifData := (exifData (snd entry))\<lparr>location := Some l\<rparr>\<rparr>)
            else entry)
         cache"

text \<open>
  The \<open>then\<close> and \<open>catch\<close> handlers attached in \<open>extractExifData\<close>, for the promise of
  record number \<open>oid\<close>. The pair is the record as the handler's closure holds it, and the
  helper. On success the record is written in place, so the cache entry that holds it
  shows the location from then on; on failure the handler only logs.
\<close>

definition geocode_settled ::
  "nat \<Rightarrow> js_error + string \<Rightarrow> ExifData \<times> NodeHelper \<Rightarrow> ExifData \<times> NodeHelper" where
  "geocode_settled oid r xs =
     (case r of
        Inr l \<Rightarrow>
          ((fst xs)\<lparr>location := Some l\<rparr>,
           (snd xs)\<lparr>imageCache :=
                      set_location_in_cache oid l (exifObjects (snd xs)) (imageCache (snd xs))\<rparr>)
      | Inl e \<Rightarrow> (fst xs, Log Debug ''Reverse geocoding failed'' (snd xs)))"

subsection \<open>Fetching and caching an image\<close>

text \<open>A value in a template literal or passed to \<open>encodeURIComponent\<close>.\<close>

definition js_string :: "string option \<Rightarrow> string" where
  "js_string v = (case v of None \<Rightarrow> ''undefined'' | Some t \<Rightarrow> t)"

definition cacheKey_of :: "Config \<Rightarrow> string option \<Rightarrow> string" where
  "cacheKey_of c fname =
     js_string fname @ ''_'' @ decimal (showWidth c) @ ''_'' @ decimal (showHeight c)"

definition fetchImageData ::
  "host \<Rightarrow> ImageRequest \<Rightarrow> NodeHelper \<Rightarrow> (unit, NodeHelper) outcome" where
  "fetchImageData h imageRequest s =
     (let fname = request_filename imageRequest;
          s1 = Log Debug (''Fetching image data for: '' @ js_string fname) s
      in case config s1 of
           None \<Rightarrow> Throws TypeError s1
         | Some c \<Rightarrow>
             (let cacheKey = cacheKey_of c fname
              in case map_of (imageCache s1) cacheKey of
                   Some cached \<Rightarrow>
                     Returns ()
                       (sendSocketNotification (IMAGE_DATA_RECEIVED cached)
                          (Log Debug (''Returning cached image data for: '' @ js_string fname) s1))
                 | None \<Rightarrow>
                     (case repositoryConfig c of
                        None \<Rightarrow> Throws TypeError s1
                      | Some r \<Rightarrow>
                          (let imageUrl = path r @ ''/'' @ encodeURIComponent (js_string fname)
                           in if request_ok h imageUrl then
                                Returns ()
                                  (https_request
                                     \<lparr>req_method = ''GET'', req_url = imageUrl,
                                      req_headers = [(''Authorization'', createAuthHeader h r)],
                                      req_timeout = 60000\<rparr> s1)
                              else Throws TypeError s1))))"

definition fetchImageData_on_error ::
  "string option \<Rightarrow> js_error \<Rightarrow> NodeHelper \<Rightarrow> NodeHelper" where
  "fetchImageData_on_error fname error s =
     sendSocketNotification
       (ERROR \<lparr>message = ''Failed to fetch image: '' @ js_string fname, details = Some error\<rparr>)
       (Log LogError (''Error fetching image '' @ js_string fname) s)"

definition fetchImageData_on_timeout :: "string option \<Rightarrow> NodeHelper \<Rightarrow> NodeHelper" where
  "fetchImageData_on_timeout fname s =
     sendSocketNotification
       (ERROR \<lparr>message = ''Timeout downloading image: '' @ js_string fname, details = None\<rparr>)
       (Log LogError (''Timeout fetching image: '' @ js_string fname) s)"

text \<open>
  The cache update of \<open>handleImageDataResponse\<close>: when the map holds more than 50 entries
  its first key is deleted, then the new entry is \<open>set\<close> (in place if the key is there,
  at the end otherwise).
\<close>

definition cache_store ::
  "string \<Rightarrow> ImageData \<Rightarrow> (string \<times> ImageData) list \<Rightarrow> (string \<times> ImageData) list" where
  "cache_store cacheKey imageData cache =
     AList.update cacheKey imageData
       (if length cache > 50 then
          (case cache of [] \<Rightarrow> cache | (firstKey, v) # rest \<Rightarrow> AList.delete firstKey cache)
        else cache)"

text \<open>
  \<open>handleImageDataResponse\<close> and, for a status below 400, its \<open>end\<close> handler with the
  chunks received. Nothing in the \<open>try\<close> block but \<open>extractExifData\<close> is modelled as
  able to throw. The entry is stored with the record \<open>extractExifData\<close> has just created,
  which is record number \<open>nextObject s\<close>.
\<close>

definition handleImageDataResponse ::
  "host \<Rightarrow> response \<Rightarrow> Buffer list \<Rightarrow> string option \<Rightarrow> string \<Rightarrow> NodeHelper
   \<Rightarrow> (unit, NodeHelper) outcome" where
  "handleImageDataResponse h response chunks fname cacheKey s =
     (if statusCode response \<ge> 400 then
        Returns ()
          (sendSocketNotification
             (ERROR \<lparr>message = ''Failed to download image: '' @ js_string fname @ '' (HTTP ''
                                @ decimal (statusCode response) @ '')'',
                     details = None\<rparr>)
             (Log LogError (''HTTP error for image: '' @ js_string fname) s))
      else
        try_catch
          (let buffer = concat chunks;
               mime = (case content_type response of
                         None \<Rightarrow> ''image/jpeg''
                       | Some m \<Rightarrow> if m = [] then ''image/jpeg'' else m);
               encoded = ''data:'' @ mime @ '';base64,'' @ base64 h buffer
           in case extractExifData h buffer s of
                Throws e xs \<Rightarrow> Throws e (snd xs)
              | Returns u xs \<Rightarrow>
                  (let imageData =
                         \<lparr>filename = fname, encodedData = encoded, exifData = fst xs,
                          mimeType = mime, size_bytes = length buffer\<rparr>;
                       s1 = (snd xs)\<lparr>imageCache :=
                                       cache_store cacheKey imageData (imageCache (snd xs)),
                                     exifObjects :=
                                       AList.update cacheKey (nextObject s)
                                         (exifObjects (snd xs))\<rparr>
                   in Returns ()
                        (sendSocketNotification (IMAGE_DATA_RECEIVED imageData)
                           (Log Debug (''Successfully processed image: '' @ js_string fname) s1))))
          (\<lambda>error s1. Returns ()
             (sendSocketNotification
                (ERROR \<lparr>message = ''Failed to process image: '' @ js_string fname,
                        details = Some error\<rparr>)
                (Log LogError (''Error processing image '' @ js_string fname) s1))))"

definition handleImageDataResponse_on_error ::
  "string option \<Rightarrow> js_error \<Rightarrow> NodeHelper \<Rightarrow> NodeHelper" where
  "handleImageDataResponse_on_error fname error s =
     sendSocketNotification
       (ERROR \<lparr>message = ''Download error for image: '' @ js_string fname,
               details = Some error\<rparr>)
       (Log LogError (''Error downloading image '' @ js_string fname) s)"

definition stop :: "NodeHelper \<Rightarrow> NodeHelper" where
  "stop s =
     (Log Info ''Node helper stopping...'' s)
       \<lparr>config := None, imageCache := [], isInitialized := False, exifObjects := []\<rparr>"

definition socketNotificationReceived ::
  "host \<Rightarrow> to_helper \<Rightarrow> NodeHelper \<Rightarrow> (unit, NodeHelper) outcome" where
  "socketNotificationReceived h notification s =
     (let s1 = Log Debug ''Received notification'' s
      in case notification of
           INIT_CONFIG payload \<Rightarrow> handleConfigInit h payload s1
         | FETCH_IMAGE_LIST \<Rightarrow> fetchImageList h s1
         | FETCH_IMAGE payload \<Rightarrow> fetchImageData h payload s1
         | OTHER name \<Rightarrow> Returns () (Log Warn (''Unknown notification: '' @ name) s1))"

text \<open>
  A run of image responses, each complete and handled before the next; an entry is the
  response, its chunks, and the file name and cache key its request was made with.
\<close>

fun handle_responses ::
  "host \<Rightarrow> (response \<times> Buffer list \<times> string option \<times> string) list \<Rightarrow> NodeHelper \<Rightarrow> NodeHelper" where
  "handle_responses h [] s = s"
| "handle_responses h ((response, chunks, fname, cacheKey) # rest) s =
     (case handleImageDataResponse h response chunks fname cacheKey s of
        Returns u s' \<Rightarrow> handle_responses h rest s'
      | Throws e s' \<Rightarrow> handle_responses h rest s')"

section \<open>The module (\<open>MMM-Nextcloud.js\<close>)\<close>

text \<open>
  The module's fields, and its surroundings: the notifications it has sent to the helper,
  the pending timeouts and intervals (handle and delay in milliseconds), the next timer
  handle and the number of calls made to \<open>Math.random\<close>. Of the rendering surface only
  this is kept: whether the wrapper and the main image element exist, and the error
  message on display. Styles, the status icon and the EXIF display are not modelled.
\<close>

record Module = logging +
  mconfig :: Config
  updateTimer :: "nat option"
  refreshTimer :: "nat option"
  imageList :: "string list"
  currentImageIndex :: int
  running :: bool
  currentImageUrl :: "string option"
  animationInProgress :: bool
  sentToHelper :: "to_helper list"
  timeouts :: "(nat \<times> int) list"
  intervals :: "(nat \<times> int) list"
  nextHandle :: nat
  randomCalls :: nat
  wrapperPresent :: bool
  mainImagePresent :: bool
  shownError :: "string option"

definition module_send :: "to_helper \<Rightarrow> Module \<Rightarrow> Module" where
  "module_send n s = s\<lparr>sentToHelper := sentToHelper s @ [n]\<rparr>"

definition clearTimeout :: "nat \<Rightarrow> Module \<Rightarrow> Module" where
  "clearTimeout t s = s\<lparr>timeouts := filter (\<lambda>p. fst p \<noteq> t) (timeouts s)\<rparr>"

definition clearInterval :: "nat \<Rightarrow> Module \<Rightarrow> Module" where
  "clearInterval t s = s\<lparr>intervals := filter (\<lambda>p. fst p \<noteq> t) (intervals s)\<rparr>"

text \<open>\<open>imageList[i]\<close>.\<close>

definition element_at :: "'a list \<Rightarrow> int \<Rightarrow> 'a option" where
  "element_at xs i = (if 0 \<le> i \<and> i < int (length xs) then Some (xs ! nat i) else None)"

text \<open>
  \<open>validateConfig\<close> returns early when the path or the credentials are missing, so the
  two intervals are clamped only when both are there. Its check of the status icon
  position, and the clamp of the blur amount in \<open>start\<close>, concern the rendering only and
  are left out.
\<close>

definition validateConfig :: "Module \<Rightarrow> (unit, Module) outcome" where
  "validateConfig s =
     (case repositoryConfig (mconfig s) of
        None \<Rightarrow> Throws TypeError s
      | Some r \<Rightarrow>
          if path r = [] then
            Returns () (Log LogError ''No repository path configured. Please set repositoryConfig.path'' s)
          else if username r = [] \<or> password r = [] then
            Returns () (Log LogError ''No credentials configured. Please set repositoryConfig.username and repositoryConfig.password'' s)
          else
            (let s1 = (if updateInterval (mconfig s) < 10 then
                         (Log Warn ''updateInterval too low. Setting to minimum of 10 seconds'' s)
                           \<lparr>mconfig := (mconfig s)\<lparr>updateInterval := 10\<rparr>\<rparr>
                       else s);
                 s2 = (if listRefreshInterval (mconfig s1) < 300 then
                         (Log Warn ''listRefreshInterval too low. Setting to minimum of 300 seconds'' s1)
                           \<lparr>mconfig := (mconfig s1)\<lparr>listRefreshInterval := 300\<rparr>\<rparr>
                       else s1)
             in Returns () s2))"

definition requestImageList :: "Module \<Rightarrow> Module" where
  "requestImageList s =
     module_send FETCH_IMAGE_LIST (Log Info ''Requesting image list from Nextcloud...'' s)"

definition module_start :: "Config \<Rightarrow> (unit, Module) outcome" where
  "module_start cfg =
     (case validateConfig
             \<lparr>logs = [(Info, ''Starting module...'')], mconfig = cfg, updateTimer = None,
              refreshTimer = None, imageList = [], currentImageIndex = - 1, running = False,
              currentImageUrl = None, animationInProgress = False, sentToHelper = [],
              timeouts = [], intervals = [], nextHandle = 1, randomCalls = 0,
              wrapperPresent = False, mainImagePresent = False, shownError = None\<rparr> of
        Throws e s \<Rightarrow> Throws e s
      | Returns u s \<Rightarrow>
          Returns () (requestImageList (module_send (INIT_CONFIG (mconfig s)) s)))"

definition setupRefreshTimer :: "Module \<Rightarrow> Module" where
  "setupRefreshTimer s =
     (let s1 = (case refreshTimer s of None \<Rightarrow> s | Some t \<Rightarrow> clearInterval t s)
      in s1\<lparr>refreshTimer := Some (nextHandle s1),
             intervals := intervals s1 @ [(nextHandle s1, listRefreshInterval (mconfig s1) * 1000)],
             nextHandle := Suc (nextHandle s1)\<rparr>)"

definition scheduleNextUpdate :: "Module \<Rightarrow> Module" where
  "scheduleNextUpdate s =
     (if \<not> running s then s
      else
        (let s1 = (case updateTimer s of None \<Rightarrow> s | Some t \<Rightarrow> clearTimeout t s)
         in s1\<lparr>updateTimer := Some (nextHandle s1),
                timeouts := timeouts s1 @ [(nextHandle s1, updateInterval (mconfig s1) * 1000)],
                nextHandle := Suc (nextHandle s1)\<rparr>))"

text \<open>
  The \<open>do ... while\<close> loop of the random mode. The \<open>k\<close>-th call of \<open>Math.random\<close> returns
  \<open>rnd k\<close>; the result is the index drawn last and the number of calls made. The loop
  need not end, so the function is partial: \<open>None\<close> is a loop that never returns. The
  product is taken in the real numbers; the rounded product of the machine lies in the
  same range, from 0 up to the length, the length excluded.
\<close>

partial_function (option) random_index ::
  "(nat \<Rightarrow> real) \<Rightarrow> nat \<Rightarrow> nat \<Rightarrow> int \<Rightarrow> (int \<times> nat) option" where
  "random_index rnd k len cur =
     (let targetIndex = \<lfloor>rnd k * real len\<rfloor>
      in if len > 1 \<and> targetIndex = cur then random_index rnd (Suc k) len cur
         else Some (targetIndex, Suc k))"

declare random_index.simps [code]

text \<open>The index drawn by the \<open>k\<close>-th call: \<open>Math.floor(Math.random() * len)\<close>.\<close>

definition draw :: "(nat \<Rightarrow> real) \<Rightarrow> nat \<Rightarrow> nat \<Rightarrow> int" where
  "draw rnd len k = \<lfloor>rnd k * real len\<rfloor>"

definition sequential_index :: "string \<Rightarrow> nat \<Rightarrow> int \<Rightarrow> int" where
  "sequential_index direction len cur =
     (if direction = ''previous'' then
        (if cur - 1 < 0 then int len - 1 else cur - 1)
      else
        (if cur + 1 \<ge> int len then 0 else cur + 1))"

definition getNextImageFromList ::
  "(nat \<Rightarrow> real) \<Rightarrow> string \<Rightarrow> Module \<Rightarrow> (ImageRequest option \<times> Module) option" where
  "getNextImageFromList rnd direction s =
     (if length (imageList s) = 0 then Some (None, s)
      else
        (case (if random (mconfig s) then
                 random_index rnd (randomCalls s) (length (imageList s)) (currentImageIndex s)
               else
                 Some (sequential_index direction (length (imageList s)) (currentImageIndex s),
                       randomCalls s)) of
           None \<Rightarrow> None
         | Some (targetIndex, calls) \<Rightarrow>
             Some (Some \<lparr>request_filename = element_at (imageList s) targetIndex,
                          request_index = targetIndex\<rparr>,
                   s\<lparr>currentImageIndex := targetIndex, randomCalls := calls\<rparr>)))"

definition loadNextImage :: "(nat \<Rightarrow> real) \<Rightarrow> string \<Rightarrow> Module \<Rightarrow> Module option" where
  "loadNextImage rnd direction s =
     (if animationInProgress s then
        Some (Log Debug ''Animation in progress, skipping load request'' s)
      else if length (imageList s) = 0 then
        Some (scheduleNextUpdate (Log Warn ''No images available to display'' s))
      else
        (case getNextImageFromList rnd direction s of
           None \<Rightarrow> None
         | Some (None, s1) \<Rightarrow>
             Some (scheduleNextUpdate (Log LogError ''Failed to get image from list'' s1))
         | Some (Some imageData, s1) \<Rightarrow>
             Some (module_send (FETCH_IMAGE imageData)
                     (Log Debug (''Loading image: '' @ js_string (request_filename imageData))
                        s1))))"

definition pauseImageLoading :: "Module \<Rightarrow> Module" where
  "pauseImageLoading s =
     (let s1 = (case updateTimer s of
                  None \<Rightarrow> s
                | Some t \<Rightarrow> (clearTimeout t s)\<lparr>updateTimer := None\<rparr>)
      in Log Info ''Image loading paused'' (s1\<lparr>running := False\<rparr>))"

definition resumeImageLoading :: "(nat \<Rightarrow> real) \<Rightarrow> bool \<Rightarrow> Module \<Rightarrow> Module option" where
  "resumeImageLoading rnd respectPausedState s =
     (if \<not> running s \<or> \<not> respectPausedState then
        (if respectPausedState \<and> startPaused (mconfig s) then Some (s\<lparr>running := False\<rparr>)
         else
           (case loadNextImage rnd ''next'' (s\<lparr>running := True\<rparr>) of
              None \<Rightarrow> None
            | Some s1 \<Rightarrow> Some (Log Info ''Image loading resumed'' s1)))
      else Some s)"

text \<open>
  \<open>displayImage\<close> starts preloading the image; the preload ends in \<open>onload\<close>, which calls
  \<open>performImageTransition\<close>, or in \<open>onerror\<close>. The transition ends in its timeout callback,
  \<open>transition_done\<close>.
\<close>

definition displayImage :: "ImageData \<Rightarrow> Module \<Rightarrow> Module" where
  "displayImage imageData s =
     (if animationInProgress s then s else s\<lparr>animationInProgress := True\<rparr>)"

definition displayImage_onerror :: "Module \<Rightarrow> Module" where
  "displayImage_onerror s =
     scheduleNextUpdate ((Log LogError ''Failed to load image'' s)\<lparr>animationInProgress := False\<rparr>)"

definition transition_done :: "ImageData \<Rightarrow> Module \<Rightarrow> Module" where
  "transition_done imageData s =
     scheduleNextUpdate
       (s\<lparr>currentImageUrl := Some (encodedData imageData), animationInProgress := False\<rparr>)"

definition performImageTransition :: "Module \<Rightarrow> Module" where
  "performImageTransition s =
     (if \<not> mainImagePresent s then
        (Log LogError ''Main image element not found'' s)\<lparr>animationInProgress := False\<rparr>
      else s)"

definition showErrorMessage :: "string \<Rightarrow> Module \<Rightarrow> Module" where
  "showErrorMessage msg s =
     (if \<not> wrapperPresent s then s
      else s\<lparr>mainImagePresent := False, shownError := Some msg\<rparr>)"



definition module_socketNotificationReceived ::
  "(nat \<Rightarrow> real) \<Rightarrow> to_module \<Rightarrow> Module \<Rightarrow> Module option" where
  "module_socketNotificationReceived rnd notification s =
     (case notification of
        IMAGE_LIST_RECEIVED payload \<Rightarrow>
          (let s1 = (Log Info ''Received image list'' s)
                      \<lparr>imageList := payload, currentImageIndex := - 1\<rparr>
           in case (if \<not> startHidden (mconfig s1) \<and> length (imageList s1) > 0 then
                      resumeImageLoading rnd True s1
                    else Some s1) of
                None \<Rightarrow> None
              | Some s2 \<Rightarrow> Some (setupRefreshTimer s2))
      | IMAGE_DATA_RECEIVED payload \<Rightarrow>
          Some (displayImage payload (Log Debug ''Received image data'' s))
      | ERROR payload \<Rightarrow>
          Some (showErrorMessage (message payload) (Log LogError ''Error from node helper'' s))
      | FETCH_PROGRESS text \<Rightarrow> Some (Log Debug ''Fetch progress'' s))"

text \<open>The callbacks of the two timers, for a timer that is still pending.\<close>

definition updateTimer_fired :: "(nat \<Rightarrow> real) \<Rightarrow> nat \<Rightarrow> Module \<Rightarrow> Module option" where
  "updateTimer_fired rnd t s =
     (if t \<in> fst ` set (timeouts s) then loadNextImage rnd ''next'' (clearTimeout t s)
      else Some s)"

definition refreshTimer_fired :: "nat \<Rightarrow> Module \<Rightarrow> Module" where
  "refreshTimer_fired t s =
     (if t \<in> fst ` set (intervals s) then
        requestImageList (Log Info ''Refreshing image list...'' s)
      else s)"

definition suspend :: "Module \<Rightarrow> Module" where
  "suspend s =
     (let s1 = pauseImageLoading (Log Info ''Module suspended'' s)
      in case refreshTimer s1 of
           None \<Rightarrow> s1
         | Some t \<Rightarrow> (clearInterval t s1)\<lparr>refreshTimer := None\<rparr>)"

definition resume :: "(nat \<Rightarrow> real) \<Rightarrow> Module \<Rightarrow> Module option" where
  "resume rnd s = resumeImageLoading rnd True (setupRefreshTimer (Log Info ''Module resumed'' s))"

section \<open>Worked examples: a host, a configuration and a cache\<close>

text \<open>
  A host for the examples. Its URL parser handles \<open>https://authority/path\<close> without query
  or fragment; its regular expressions are the patterns made of ASCII letters and digits
  only, which match where the pattern occurs in the text, letter case ignored; its EXIF
  parser finds no tags in the empty buffer, the tags of \<open>example_tags\<close> in the buffer of the
  one octet 1, and throws on any other; its JSON parser throws on the empty text and
  finds an address without fields in any other; base64 and the date formatter are
  stand-ins.
\<close>

definition example_tags :: exif_tags where
  "example_tags =
     \<lparr>DateTimeOriginal = Some 1700000000, GPSLatitude = Some 52, GPSLongitude = Some 13,
      Make = Some ''Canon'', Model = Some ''EOS''\<rparr>"

fun includes_text :: "string \<Rightarrow> string \<Rightarrow> bool" where
  "includes_text [] p = (p = [])"
| "includes_text (c # cs) p = (startsWith (c # cs) p \<or> includes_text cs p)"

definition example_url_pathname :: "string \<Rightarrow> string option" where
  "example_url_pathname u =
     (let rest = drop 8 u;
          authority = takeWhile (\<lambda>c. c \<noteq> CHR ''/'') rest;
          p = dropWhile (\<lambda>c. c \<noteq> CHR ''/'') rest
      in if startsWith u ''https://'' \<and> authority \<noteq> [] then
           Some (if p = [] then ''/'' else p)
         else None)"

definition example_regexp_i :: "string \<Rightarrow> (string \<Rightarrow> bool) option" where
  "example_regexp_i p =
     (if p \<noteq> [] \<and> list_all (\<lambda>c. c \<in> set (upper_letters @ lower_letters @ digit_chars)) p
      then Some (\<lambda>t. includes_text (toLowerCase t) (toLowerCase p))
      else None)"

definition example_host :: host where
  "example_host =
     \<lparr>url_pathname = example_url_pathname,
      regexp_i = example_regexp_i,
      request_ok = (\<lambda>u. example_url_pathname u \<noteq> None),
      base64 = (\<lambda>b. []),
      exif_parse = (\<lambda>b. if b = [] then Inr None
                         else if b = [1] then Inr (Some example_tags)
                         else Inl (Error ''Invalid JPEG section offset'')),
      toISOString = (\<lambda>t. if t = 1700000000000 then ''2023-11-14T22:13:20.000Z'' else []),
      json_address = (\<lambda>b. if b = [] then Inl SyntaxError else Inr (\<lambda>k. None))\<rparr>"

definition example_repository :: repositoryConfig where
  "example_repository =
     \<lparr>path = ''https://cloud.example.com/dav/photos'',
      username = ''u'', password = ''secret'', recursive = True, exclude = Some [''trash'']\<rparr>"

definition example_config :: Config where
  "example_config =
     \<lparr>repositoryConfig = Some example_repository, updateInterval = 60,
      listRefreshInterval = 3600, showWidth = 400, showHeight = 400, random = False,
      startHidden = False, startPaused = False, enableGeocoding = True\<rparr>"

text \<open>The helper after \<open>INIT_CONFIG\<close> with the example configuration.\<close>

definition example_helper :: NodeHelper where
  "example_helper =
     \<lparr>logs = [], config = Some example_config, imageCache = [], isInitialized = True,
      sent = [], requests = [], geocodeLookups = [], nextObject = 0, exifObjects = []\<rparr>"

definition example_image :: "nat \<Rightarrow> ImageData" where
  "example_image i =
     \<lparr>filename = Some (''img'' @ decimal i @ ''.jpg''),
      encodedData = ''data:image/jpeg;base64,'', exifData = empty_exif,
      mimeType = ''image/jpeg'', size_bytes = 0\<rparr>"

text \<open>A cache of \<open>n\<close> entries, \<open>img0.jpg\<close> inserted first.\<close>

definition example_cache :: "nat \<Rightarrow> (string \<times> ImageData) list" where
  "example_cache n =
     map (\<lambda>i. (''img'' @ decimal i @ ''.jpg_400_400'', example_image i)) [0..<n]"

definition ok_response :: response where
  "ok_response = \<lparr>statusCode = 200, statusMessage = ''OK'', content_type = Some ''image/jpeg''\<rparr>"

definition multistatus :: response where
  "multistatus = \<lparr>statusCode = 207, statusMessage = ''Multi-Status'', content_type = None\<rparr>"

text \<open>The module after \<open>IMAGE_LIST_RECEIVED\<close> with three images, paused, sequential.\<close>

definition example_module :: Module where
  "example_module =
     \<lparr>logs = [], mconfig = example_config, updateTimer = None, refreshTimer = None,
      imageList = [''a.jpg'', ''b.jpg'', ''c.jpg''], currentImageIndex = - 1, running = False,
      currentImageUrl = None, animationInProgress = False, sentToHelper = [], timeouts = [],
      intervals = [], nextHandle = 1, randomCalls = 0, wrapperPresent = True,
      mainImagePresent = True, shownError = None\<rparr>"



section \<open>The listing as the specification describes it\<close>

text \<open>
  The specification's account of \<open>listImages\<close>, written from its words: each entry has
  the base path stripped and is URL-decoded; the base directory itself and the entries
  ending in a path separator are discarded; what is left is kept when it ends in a dot and
  one of the allowed image extensions, compared case-insensitively, and no exclusion
  pattern matches it; the listing order is kept.
\<close>

definition identifier_of :: "string \<Rightarrow> string \<Rightarrow> js_error + string" where
  "identifier_of basePath href =
     decodeURIComponent (strip_leading_slashes (replace_first_empty basePath href))"

definition spec_identifiers :: "string \<Rightarrow> string list \<Rightarrow> string list" where
  "spec_identifiers basePath hrefs =
     List.map_filter
       (\<lambda>href. if href = basePath \<or> href = basePath @ ''/'' then None
               else (case identifier_of basePath href of
                       Inl e \<Rightarrow> None
                     | Inr name \<Rightarrow> if name = [] \<or> endsWith name ''/'' then None else Some name))
       hrefs"

definition spec_extensions :: "string list" where
  "spec_extensions = [''jpg'', ''jpeg'', ''png'', ''gif'', ''bmp'', ''webp'', ''tiff'', ''tif'']"

definition ends_in_allowed_extension :: "string \<Rightarrow> bool" where
  "ends_in_allowed_extension name =
     list_ex (\<lambda>ext. endsWith (toLowerCase name) (CHR ''.'' # ext)) spec_extensions"

definition excluded :: "(string \<Rightarrow> bool) list \<Rightarrow> string \<Rightarrow> bool" where
  "excluded pats name = list_ex (\<lambda>pattern. pattern name) pats"

definition spec_listImages :: "string \<Rightarrow> (string \<Rightarrow> bool) list \<Rightarrow> string list \<Rightarrow> string list" where
  "spec_listImages basePath pats hrefs =
     filter (\<lambda>name. ends_in_allowed_extension name \<and> \<not> excluded pats name)
       (spec_identifiers basePath hrefs)"

definition decodable :: "string \<Rightarrow> string \<Rightarrow> bool" where
  "decodable basePath href =
     (href = basePath \<or> href = basePath @ ''/'' \<or>
      (case identifier_of basePath href of Inl e \<Rightarrow> False | Inr name \<Rightarrow> True))"

text \<open>
  An identifier ends in an extension after a stem when the dot of the extension is not
  the first character of the last path segment: \<open>a.jpg\<close> and \<open>sub/c.png\<close> do,
  \<open>.jpg\<close> and \<open>x/.PNG\<close> do not.
\<close>

definition extension_after_stem :: "string \<Rightarrow> string \<Rightarrow> bool" where
  "extension_after_stem name ext =
     (endsWith (toLowerCase name) ext \<and> length ext < length name \<and>
      name ! (length name - length ext - 1) \<noteq> CHR ''/'')"

definition extension_has_stem :: "string \<Rightarrow> bool" where
  "extension_has_stem name =
     list_ex (\<lambda>ext. extension_after_stem name (CHR ''.'' # ext)) spec_extensions"

text \<open>
  Example listings: one that parses, one with two entries named by an extension alone,
  one with an entry that cannot be decoded.
\<close>

definition example_listing :: string where
  "example_listing =
     ''<d:href>/dav/photos/</d:href>''
     @ ''<d:href>/dav/photos/a%20b.JPG</d:href>''
     @ ''<d:href>/dav/photos/Trash/photo.jpg</d:href>''
     @ ''<d:href>/dav/photos/notes.txt</d:href>''
     @ ''<d:href>/dav/photos/sub/</d:href>''
     @ ''<d:href>/dav/photos/sub/c.png</d:href>''"

definition dotfile_listing :: string where
  "dotfile_listing =
     ''<d:href>/dav/photos/a.jpg</d:href>''
     @ ''<d:href>/dav/photos/.jpg</d:href>''
     @ ''<d:href>/dav/photos/x/.PNG</d:href>''"

definition example_patterns :: "(string \<Rightarrow> bool) list" where
  "example_patterns = [\<lambda>t. includes_text (toLowerCase t) ''trash'']"

definition undecodable_listing :: string where
  "undecodable_listing = ''<d:href>/dav/photos/100%.jpg</d:href>''"


section \<open>Properties of the node helper\<close>

subsection \<open>Auxiliary facts\<close>

lemma update_fresh:
  "k \<notin> fst ` set al \<Longrightarrow> AList.update k v al = al @ [(k, v)]"
  by (induction al) auto

lemma extract_gps_frame:
  assumes "extract_gps oid tags (x, s) = Returns u (x', s') \<or>
           extract_gps oid tags (x, s) = Throws e (x', s')"
  shows "imageCache s' = imageCache s \<and> sent s' = sent s \<and> requests s' = requests s \<and>
         config s' = config s \<and> isInitialized s' = isInitialized s \<and>
         nextObject s' = nextObject s \<and> exifObjects s' = exifObjects s \<and>
         location x' = location x"
  using assms
  by (auto simp: extract_gps_def Let_def Log_def split: option.splits if_splits)

text \<open>
  \<open>extractExifData\<close> always returns; the record it returns has no location yet, and the
  helper's cache, configuration, notifications and requests are as before.
\<close>

lemma extractExifData_returns:
  "\<exists>x s1. extractExifData h buffer s = Returns () (x, s1) \<and> location x = None \<and>
     imageCache s1 = imageCache s \<and> sent s1 = sent s \<and> requests s1 = requests s \<and>
     config s1 = config s \<and> isInitialized s1 = isInitialized s \<and>
     exifObjects s1 = exifObjects s"
proof (cases "extractExifData_try h (nextObject s) buffer
                (empty_exif, s\<lparr>nextObject := Suc (nextObject s)\<rparr>)")
  case (Returns u xs)
  then show ?thesis
    by (cases xs)
      (auto simp: extractExifData_def try_catch_def extractExifData_try_def extract_date_def
         extract_camera_def empty_exif_def
         split: sum.splits option.splits if_splits outcome.splits
         dest!: extract_gps_frame [OF disjI1])
next
  case (Throws e xs)
  then show ?thesis
    by (cases xs)
      (auto simp: extractExifData_def try_catch_def extractExifData_try_def extract_date_def
         extract_camera_def empty_exif_def Log_def
         split: sum.splits option.splits if_splits outcome.splits
         dest!: extract_gps_frame [OF disjI2])
qed

text \<open>
  A response below 400 always ends in \<open>IMAGE_DATA_RECEIVED\<close>, and stores the entry it
  sends; nothing else of the helper changes but the log.
\<close>

lemma handleImageDataResponse_cache:
  assumes "statusCode response < 400"
  shows "\<exists>imageData s'.
     handleImageDataResponse h response chunks fname cacheKey s = Returns () s' \<and>
     sent s' = sent s @ [IMAGE_DATA_RECEIVED imageData] \<and>
     imageCache s' = cache_store cacheKey imageData (imageCache s) \<and>
     requests s' = requests s \<and> config s' = config s \<and>
     isInitialized s' = isInitialized s \<and>
     exifObjects s' = AList.update cacheKey (nextObject s) (exifObjects s) \<and>
     filename imageData = fname \<and> location (exifData imageData) = None"
proof -
  obtain x s1 where "extractExifData h (concat chunks) s = Returns () (x, s1)"
    and "location x = None" "imageCache s1 = imageCache s" "sent s1 = sent s"
      "requests s1 = requests s" "config s1 = config s" "isInitialized s1 = isInitialized s"
      "exifObjects s1 = exifObjects s"
    using extractExifData_returns [of h "concat chunks" s] by blast
  with assms show ?thesis
    by (simp add: handleImageDataResponse_def try_catch_def Let_def
        sendSocketNotification_def Log_def)
qed

subsection \<open>The bound of the image cache\<close>

text \<open>
  C1. The cache is tested with \<open>size > 50\<close> before an entry is stored. When it holds 50
  entries and the key of a completed response is not among them, nothing is evicted: the
  entry is appended after the 50 that are there, the first-inserted one included, and the
  cache holds 51 entries.
\<close>

theorem cache_grows_to_51_entries:
  assumes "statusCode response < 400"
    and "length (imageCache s) = 50"
    and "cacheKey \<notin> fst ` set (imageCache s)"
  shows "\<exists>imageData s'.
     handleImageDataResponse h response chunks fname cacheKey s = Returns () s' \<and>
     imageCache s' = imageCache s @ [(cacheKey, imageData)] \<and>
     length (imageCache s') = 51"
  using handleImageDataResponse_cache [OF assms(1), of h chunks fname cacheKey s] assms(2,3)
  by (auto simp: cache_store_def update_fresh)

theorem cache_grows_to_51_entries_witness:
  "\<exists>imageData s'.
     handleImageDataResponse example_host ok_response [] (Some ''new.jpg'') ''new.jpg_400_400''
       (example_helper\<lparr>imageCache := example_cache 50\<rparr>) = Returns () s' \<and>
     imageCache s' = example_cache 50 @ [(''new.jpg_400_400'', imageData)] \<and>
     length (imageCache s') = 51 \<and>
     map_of (imageCache s') ''img0.jpg_400_400'' = Some (example_image 0)"
proof -
  have 1: "statusCode ok_response < 400"
    by (simp add: ok_response_def)
  have 2: "length (imageCache (example_helper\<lparr>imageCache := example_cache 50\<rparr>)) = 50"
    by (simp add: example_cache_def)
  have 3: "''new.jpg_400_400''
      \<notin> fst ` set (imageCache (example_helper\<lparr>imageCache := example_cache 50\<rparr>))"
    by (auto simp: example_cache_def)
  have 4: "map_of (example_cache 50) ''img0.jpg_400_400'' = Some (example_image 0)"
    by code_simp
  from cache_grows_to_51_entries [OF 1 2 3, of example_host "[]" "Some ''new.jpg''"] 4
  show ?thesis by auto
qed

subsection \<open>Parse failures of the listing\<close>

text \<open>
  C2. When the body of a listing response cannot be parsed (the \<open>try\<close> block of
  \<open>parseImageListFromResponse\<close> throws), the function returns the empty list, and
  \<open>handleImageListResponse\<close> sends the \<open>No images found\<close> error: the very notification it
  sends for a listing that parses and holds no image. Its own \<open>catch\<close> block, which sends
  \<open>Failed to parse Nextcloud response\<close>, is not reached by a parse failure.
\<close>

theorem parse_failure_reported_as_no_images:
  assumes "statusCode response < 400"
  shows "(parseImageListFromResponse_try h body s = Throws e s1 \<longrightarrow>
            handleImageListResponse_end h response body s =
              Returns () (sendSocketNotification (ERROR no_images_payload)
                (Log Warn ''No images found in the specified path''
                   (Log LogError ''Error parsing image list'' s1)))) \<and>
         (parseImageListFromResponse_try h body s = Returns [] s1 \<longrightarrow>
            handleImageListResponse_end h response body s =
              Returns () (sendSocketNotification (ERROR no_images_payload)
                (Log Warn ''No images found in the specified path'' s1)))"
  using assms
  by (simp add: handleImageListResponse_end_def parseImageListFromResponse_def try_catch_def)

theorem parse_failure_reported_as_no_images_witness:
  "parseImageListFromResponse_try example_host undecodable_listing example_helper
     = Throws URIError example_helper \<and>
   handleImageListResponse_end example_host multistatus undecodable_listing example_helper =
     Returns () (sendSocketNotification (ERROR no_images_payload)
                (Log Warn ''No images found in the specified path''
                   (Log LogError ''Error parsing image list'' example_helper)))"
proof -
  have 1: "statusCode multistatus < 400" by (simp add: multistatus_def)
  have 2: "parseImageListFromResponse_try example_host undecodable_listing example_helper
     = Throws URIError example_helper" by code_simp
  from parse_failure_reported_as_no_images [OF 1, of example_host undecodable_listing example_helper URIError example_helper] 2
  show ?thesis by simp
qed

subsection \<open>What a listing returns\<close>

lemma imageExtensions_spec: "imageExtensions = map ((#) CHR ''.'') spec_extensions"
  by (simp add: imageExtensions_def spec_extensions_def)

lemma lower_char_dot [simp]: "toLowerCase_char c = CHR ''.'' \<longleftrightarrow> c = CHR ''.''"
  by (auto simp: toLowerCase_char_def upper_letters_def lower_letters_def split: option.splits if_splits)

lemma lower_char_slash [simp]: "toLowerCase_char c = CHR ''/'' \<longleftrightarrow> c = CHR ''/''"
  by (auto simp: toLowerCase_char_def upper_letters_def lower_letters_def split: option.splits if_splits)

lemma lower_dot_slash [simp]:
  "toLowerCase_char CHR ''.'' = CHR ''.''" "toLowerCase_char CHR ''/'' = CHR ''/''"
  by (simp_all add: toLowerCase_char_def upper_letters_def lower_letters_def)

lemma ext_shape:
  "ext \<in> set spec_extensions \<Longrightarrow> ext \<noteq> [] \<and> CHR ''.'' \<notin> set ext \<and> CHR ''/'' \<notin> set ext"
  by (auto simp: spec_extensions_def)

lemma lower_eq_ext:
  assumes "toLowerCase e = CHR ''.'' # ext" and "ext \<in> set spec_extensions"
  shows "\<exists>e'. e = CHR ''.'' # e' \<and> e' \<noteq> [] \<and> CHR ''.'' \<notin> set e' \<and> CHR ''/'' \<notin> set e'"
proof -
  from assms(1) obtain c e' where e: "e = c # e'" and c: "toLowerCase_char c = CHR ''.''"
    and m: "map toLowerCase_char e' = ext"
    by (cases e) (auto simp: toLowerCase_def)
  from c have c': "c = CHR ''.''" by simp
  from ext_shape [OF assms(2)] m have "e' \<noteq> []" by auto
  moreover have "CHR ''.'' \<notin> set e'"
  proof
    assume "CHR ''.'' \<in> set e'"
    then have "toLowerCase_char CHR ''.'' \<in> set (map toLowerCase_char e')"
      by (simp only: set_map image_eqI)
    with m ext_shape [OF assms(2)] show False by simp
  qed
  moreover have "CHR ''/'' \<notin> set e'"
  proof
    assume "CHR ''/'' \<in> set e'"
    then have "toLowerCase_char CHR ''/'' \<in> set (map toLowerCase_char e')"
      by (simp only: set_map image_eqI)
    with m ext_shape [OF assms(2)] show False by simp
  qed
  ultimately show ?thesis using e c' by simp
qed

lemma basename_of_split:
  assumes "e' \<noteq> []" and "CHR ''/'' \<notin> set e'"
  shows "basename_part (stem @ CHR ''.'' # e')
         = rev (takeWhile (\<lambda>c. c \<noteq> CHR ''/'') (rev stem)) @ CHR ''.'' # e'"
proof -
  have r: "rev (stem @ CHR ''.'' # e') = rev e' @ CHR ''.'' # rev stem" by simp
  from assms have "hd (rev e') \<noteq> CHR ''/''" by (metis hd_in_set rev_is_Nil_conv set_rev)
  with assms(1) have d: "dropWhile (\<lambda>c. c = CHR ''/'') (rev e' @ CHR ''.'' # rev stem)
                         = rev e' @ CHR ''.'' # rev stem"
    by (cases "rev e'") auto
  have "takeWhile (\<lambda>c. c \<noteq> CHR ''/'') (rev e' @ CHR ''.'' # rev stem)
           = rev e' @ takeWhile (\<lambda>c. c \<noteq> CHR ''/'') (CHR ''.'' # rev stem)"
    by (rule takeWhile_append2) (use assms(2) in auto)
  then have t: "takeWhile (\<lambda>c. c \<noteq> CHR ''/'') (rev e' @ CHR ''.'' # rev stem)
           = rev e' @ CHR ''.'' # takeWhile (\<lambda>c. c \<noteq> CHR ''/'') (rev stem)"
    by simp
  show ?thesis
    unfolding basename_part_def r Let_def d t by simp
qed

lemma extname_split:
  assumes "basename_part p = t @ CHR ''.'' # e'" and "t \<noteq> []" and "CHR ''.'' \<notin> set e'"
    and "e' \<noteq> []"
  shows "extname p = CHR ''.'' # e'"
proof -
  let ?b = "t @ CHR ''.'' # e'"
  have "takeWhile (\<lambda>c. c \<noteq> CHR ''.'') (rev e' @ CHR ''.'' # rev t)
          = rev e' @ takeWhile (\<lambda>c. c \<noteq> CHR ''.'') (CHR ''.'' # rev t)"
    by (rule takeWhile_append2) (use assms(3) in auto)
  then have a: "takeWhile (\<lambda>c. c \<noteq> CHR ''.'') (rev ?b) = rev e'"
    by simp
  have len: "length ?b - length (rev e') - 1 = length t" by simp
  from assms(2,4) have ne: "?b \<noteq> ''..''"
    by (cases t; cases e') auto
  from assms(2) have tl: "length t \<noteq> 0" by simp
  show ?thesis
    unfolding extname_def assms(1) Let_def a len
    using ne tl by simp
qed

lemma last_take_nth:
  "0 < m \<Longrightarrow> m \<le> length xs \<Longrightarrow> last (take m xs) = xs ! (m - 1)"
  by (cases m) (simp_all add: take_Suc_conv_app_nth)

lemma stem_gives_extname:
  assumes "ext \<in> set spec_extensions" and "extension_after_stem name (CHR ''.'' # ext)"
  shows "toLowerCase (extname name) = CHR ''.'' # ext"
proof -
  let ?k = "length (CHR ''.'' # ext)"
  let ?m = "length name - ?k"
  define stem where "stem = take ?m name"
  define e where "e = drop ?m name"
  from assms(2) have le: "?k \<le> length name" and lt: "?k < length name"
    and dr: "drop ?m (toLowerCase name) = CHR ''.'' # ext"
    and sl: "name ! (length name - ?k - 1) \<noteq> CHR ''/''"
    by (simp_all add: extension_after_stem_def endsWith_def toLowerCase_def)
  have name: "name = stem @ e" by (simp add: stem_def e_def)
  have "toLowerCase e = CHR ''.'' # ext"
    using dr by (simp add: e_def toLowerCase_def drop_map)
  from lower_eq_ext [OF this assms(1)] obtain e' where e': "e = CHR ''.'' # e'" "e' \<noteq> []"
    "CHR ''.'' \<notin> set e'" "CHR ''/'' \<notin> set e'" by blast
  from lt have m: "0 < ?m" "?m \<le> length name" by simp_all
  then have ne: "stem \<noteq> []" by (auto simp: stem_def)
  from m have "last stem = name ! (?m - 1)"
    unfolding stem_def by (rule last_take_nth)
  with sl have "last stem \<noteq> CHR ''/''" by simp
  with ne have "hd (rev stem) \<noteq> CHR ''/''" by (simp add: hd_rev)
  with ne have t: "takeWhile (\<lambda>c. c \<noteq> CHR ''/'') (rev stem) \<noteq> []"
    by (cases "rev stem") auto
  have "basename_part name
        = rev (takeWhile (\<lambda>c. c \<noteq> CHR ''/'') (rev stem)) @ CHR ''.'' # e'"
    unfolding name e'(1) by (rule basename_of_split [OF e'(2) e'(4)])
  from extname_split [OF this _ e'(3) e'(2)] t have "extname name = e"
    by (simp add: e'(1))
  with \<open>toLowerCase e = CHR ''.'' # ext\<close> show ?thesis by simp
qed

lemma basename_suffix:
  assumes "\<not> endsWith p ''/''"
  shows "\<exists>pre. p = pre @ basename_part p" and "CHR ''/'' \<notin> set (basename_part p)"
proof -
  have d: "dropWhile (\<lambda>c. c = CHR ''/'') (rev p) = rev p"
  proof (cases p rule: rev_cases)
    case Nil
    then show ?thesis by simp
  next
    case (snoc ys y)
    with assms have "y \<noteq> CHR ''/''" by (simp add: endsWith_def)
    with snoc show ?thesis by simp
  qed
  have b: "basename_part p = rev (takeWhile (\<lambda>c. c \<noteq> CHR ''/'') (rev p))"
    by (simp add: basename_part_def Let_def d)
  have "rev p = takeWhile (\<lambda>c. c \<noteq> CHR ''/'') (rev p) @ dropWhile (\<lambda>c. c \<noteq> CHR ''/'') (rev p)"
    by simp
  then have "p = rev (dropWhile (\<lambda>c. c \<noteq> CHR ''/'') (rev p))
                 @ rev (takeWhile (\<lambda>c. c \<noteq> CHR ''/'') (rev p))"
    by (metis rev_append rev_rev_ident)
  with b show "\<exists>pre. p = pre @ basename_part p" by metis
  show "CHR ''/'' \<notin> set (basename_part p)"
    unfolding b by (auto dest: set_takeWhileD)
qed

lemma extname_is_drop:
  assumes "extname p \<noteq> []"
  shows "\<exists>i. 0 < i \<and> i < length (basename_part p) \<and> extname p = drop i (basename_part p)"
proof -
  let ?b = "basename_part p"
  let ?i = "length ?b - length (takeWhile (\<lambda>c. c \<noteq> CHR ''.'') (rev ?b)) - 1"
  from assms have dot: "CHR ''.'' \<in> set ?b" and i: "?i \<noteq> 0" and e: "extname p = drop ?i ?b"
    by (auto simp: extname_def Let_def split: if_splits)
  from dot have "?b \<noteq> []" by auto
  then have "?i < length ?b" by (cases ?b) auto
  with i e show ?thesis by (intro exI [of _ ?i]) simp
qed

lemma extname_gives_stem:
  assumes "\<not> endsWith name ''/''" and "toLowerCase (extname name) = CHR ''.'' # ext"
  shows "extension_after_stem name (CHR ''.'' # ext)"
proof -
  let ?b = "basename_part name"
  from assms(2) have "extname name \<noteq> []" by (auto simp: toLowerCase_def)
  from extname_is_drop [OF this] obtain i where i: "0 < i" "i < length ?b"
    and e: "extname name = drop i ?b" by blast
  from basename_suffix [OF assms(1)] obtain pre where pre: "name = pre @ ?b"
    and ns: "CHR ''/'' \<notin> set ?b" by blast
  have len: "length (CHR ''.'' # ext) = length ?b - i"
    using assms(2) e by (metis length_drop length_map toLowerCase_def)
  have n: "length name = length pre + length ?b" by (subst pre) simp
  have m: "length name - length (CHR ''.'' # ext) = length pre + i"
    using len n i by simp
  have "drop (length pre + i) name = drop i ?b"
    by (subst pre) simp
  then have dr: "drop (length pre + i) (toLowerCase name) = CHR ''.'' # ext"
    using assms(2) e by (simp add: toLowerCase_def drop_map)
  from i have "length pre + i - 1 = length pre + (i - 1)" by simp
  then have "name ! (length pre + i - 1) = (pre @ ?b) ! (length pre + (i - 1))"
    using pre by simp
  then have "name ! (length pre + i - 1) = ?b ! (i - 1)"
    by (simp only: nth_append_length_plus)
  moreover have "?b ! (i - 1) \<in> set ?b" using i by simp
  ultimately have sl: "name ! (length pre + i - 1) \<noteq> CHR ''/''" using ns by metis
  have k: "length (CHR ''.'' # ext) \<le> length name" "length (CHR ''.'' # ext) < length name"
    using len n i by arith+
  have "drop (length name - length (CHR ''.'' # ext)) (toLowerCase name) = CHR ''.'' # ext"
    using dr m by (simp only:)
  moreover have "name ! (length name - length (CHR ''.'' # ext) - 1) \<noteq> CHR ''/''"
    using sl m by simp
  ultimately show ?thesis
    unfolding extension_after_stem_def endsWith_def
    using k by (simp add: toLowerCase_def)
qed

lemma extname_allowed_iff:
  assumes "\<not> endsWith name ''/''"
  shows "List.member imageExtensions (toLowerCase (extname name)) \<longleftrightarrow> extension_has_stem name"
proof
  assume "List.member imageExtensions (toLowerCase (extname name))"
  then obtain ext where "ext \<in> set spec_extensions"
    and "toLowerCase (extname name) = CHR ''.'' # ext"
    by (auto simp: imageExtensions_spec)
  with extname_gives_stem [OF assms] show "extension_has_stem name"
    by (auto simp: extension_has_stem_def list_ex_iff)
next
  assume "extension_has_stem name"
  then obtain ext where x: "ext \<in> set spec_extensions"
    and "extension_after_stem name (CHR ''.'' # ext)"
    by (auto simp: extension_has_stem_def list_ex_iff)
  from stem_gives_extname [OF this] x
  show "List.member imageExtensions (toLowerCase (extname name))"
    by (auto simp: imageExtensions_spec)
qed

lemma extension_has_stem_ends: "extension_has_stem name \<Longrightarrow> ends_in_allowed_extension name"
  by (auto simp: extension_has_stem_def ends_in_allowed_extension_def list_ex_iff
      extension_after_stem_def)

lemma filter_hrefs_decodable:
  "list_all (decodable basePath) (map href_group ms) \<Longrightarrow>
   \<exists>s'. filter_hrefs basePath pats ms acc s =
          Returns (acc @ filter extension_has_stem
                           (spec_listImages basePath pats (map href_group ms))) s'"
proof (induction ms arbitrary: acc s)
  case Nil
  then show ?case by (simp add: spec_listImages_def spec_identifiers_def List.map_filter_simps)
next
  case (Cons m ms)
  from Cons.prems have rest: "list_all (decodable basePath) (map href_group ms)"
    and d: "decodable basePath (href_group m)" by simp_all
  note IH = Cons.IH [OF rest]
  show ?case
  proof (cases "href_group m = basePath \<or> href_group m = basePath @ ''/''")
    case True
    then show ?thesis using IH [of acc s]
      by (auto simp: spec_listImages_def spec_identifiers_def List.map_filter_simps Let_def)
  next
    case False
    with d obtain name where n: "identifier_of basePath (href_group m) = Inr name"
      by (auto simp: decodable_def split: sum.splits)
    show ?thesis
    proof (cases "name = [] \<or> endsWith name ''/''")
      case True
      with False n IH [of acc s] show ?thesis
        by (auto simp: spec_listImages_def spec_identifiers_def List.map_filter_simps Let_def
            identifier_of_def [symmetric])
    next
      case dir: False
      then have "\<not> endsWith name ''/''" by simp
      note x = extname_allowed_iff [OF this]
      show ?thesis
      proof (cases "extension_has_stem name")
        case True
        note e = extension_has_stem_ends [OF True]
        from False n dir x True e IH [of "acc @ [name]" s]
          IH [of acc "Log Debug (''Excluding file due to exclude pattern: '' @ name) s"]
        show ?thesis
          by (auto simp: spec_listImages_def spec_identifiers_def List.map_filter_simps Let_def
              identifier_of_def [symmetric] excluded_def)
      next
        case nostem: False
        from False n dir x nostem IH [of acc s]
        show ?thesis
          by (auto simp: spec_listImages_def spec_identifiers_def List.map_filter_simps Let_def
              identifier_of_def [symmetric] excluded_def)
      qed
    qed
  qed
qed

lemma filter_hrefs_undecodable:
  "\<not> list_all (decodable basePath) (map href_group ms) \<Longrightarrow>
   \<exists>e s'. filter_hrefs basePath pats ms acc s = Throws e s'"
proof (induction ms arbitrary: acc s)
  case Nil
  then show ?case by simp
next
  case (Cons m ms)
  show ?case
  proof (cases "decodable basePath (href_group m)")
    case True
    with Cons.prems have "\<not> list_all (decodable basePath) (map href_group ms)" by simp
    note IH = Cons.IH [OF this]
    show ?thesis
    proof (cases "href_group m = basePath \<or> href_group m = basePath @ ''/''")
      case True
      then show ?thesis using IH [of acc s] by (auto simp: Let_def)
    next
      case False
      with True obtain name where n: "identifier_of basePath (href_group m) = Inr name"
        by (auto simp: decodable_def split: sum.splits)
      show ?thesis
        using False n IH [of acc s] IH [of "acc @ [name]" s]
          IH [of acc "Log Debug (''Excluding file due to exclude pattern: '' @ name) s"]
        by (auto simp: Let_def identifier_of_def [symmetric])
    qed
  next
    case False
    then show ?thesis
      by (auto simp: decodable_def Let_def identifier_of_def [symmetric] split: sum.splits)
  qed
qed

lemma example_regexp_trash:
  "regexp_i example_host ''trash'' = Some (\<lambda>t. includes_text (toLowerCase t) ''trash'')"
proof -
  have "example_regexp_i ''trash'' = Some (\<lambda>t. includes_text (toLowerCase t) ''trash'')"
    by (simp add: example_regexp_i_def toLowerCase_def toLowerCase_char_def
        upper_letters_def lower_letters_def digit_chars_def)
  then show ?thesis by (simp add: example_host_def)
qed

lemma example_patterns_compiled:
  "compile_patterns example_host [''trash''] = Inr example_patterns"
  by (simp add: example_regexp_trash example_patterns_def)

text \<open>
  C3. With the configuration present, the repository URL parsed and the exclusion patterns
  compiled, and every entry of the listing other than the base directory URL-decoding:
  of the identifiers the specification describes (base path stripped, URL-decoded, base
  directory and directories discarded, ending in an allowed extension, matched by no
  exclusion pattern), the result is exactly those whose extension follows a stem, in
  listing order.
\<close>

theorem listing_returns_accepted_identifiers:
  assumes "config s = Some c" and "repositoryConfig c = Some r"
    and "url_pathname h (path r) = Some basePath"
    and "compile_patterns h (case exclude r of None \<Rightarrow> [] | Some ps \<Rightarrow> ps) = Inr pats"
    and "list_all (decodable basePath) (map href_group (match_all_href body))"
  shows "\<exists>s'. parseImageListFromResponse h body s =
           Returns (filter extension_has_stem
                      (spec_listImages basePath pats (map href_group (match_all_href body)))) s'"
proof (cases "match_all_href body = []")
  case True
  then show ?thesis
    by (simp add: parseImageListFromResponse_def parseImageListFromResponse_try_def
        try_catch_def spec_listImages_def spec_identifiers_def List.map_filter_simps)
next
  case False
  from filter_hrefs_decodable [OF assms(5), of pats "[]" s]
  obtain s' where "filter_hrefs basePath pats (match_all_href body) [] s =
    Returns (filter extension_has_stem
               (spec_listImages basePath pats (map href_group (match_all_href body)))) s'"
    by auto
  with False assms(1-4) show ?thesis
    by (simp add: parseImageListFromResponse_def parseImageListFromResponse_try_def
        try_catch_def)
qed

theorem listing_returns_accepted_identifiers_witness:
  "list_all (decodable ''/dav/photos'')
     (map href_group (match_all_href example_listing)) \<and>
   length (match_all_href example_listing) = 6 \<and>
   spec_listImages ''/dav/photos'' example_patterns
     (map href_group (match_all_href example_listing)) = [''a b.JPG'', ''sub/c.png''] \<and>
   (\<exists>s'. parseImageListFromResponse example_host example_listing example_helper =
      Returns [''a b.JPG'', ''sub/c.png''] s') \<and>
   excluded example_patterns ''Trash/photo.jpg''"
proof -
  have 1: "config example_helper = Some example_config"
    by (simp add: example_helper_def)
  have 2: "repositoryConfig example_config = Some example_repository"
    by (simp add: example_config_def)
  have 3: "url_pathname example_host (path example_repository)
             = Some ''/dav/photos''"
    by code_simp
  have 4: "compile_patterns example_host
             (case exclude example_repository of None \<Rightarrow> [] | Some ps \<Rightarrow> ps)
           = Inr example_patterns"
    by (simp add: example_repository_def example_patterns_compiled del: compile_patterns.simps)
  have 5: "list_all (decodable ''/dav/photos'')
     (map href_group (match_all_href example_listing))"
    by code_simp
  have 6: "spec_listImages ''/dav/photos'' example_patterns
       (map href_group (match_all_href example_listing)) = [''a b.JPG'', ''sub/c.png'']"
    by code_simp
  have 7: "length (match_all_href example_listing) = 6" by code_simp
  have 8: "excluded example_patterns ''Trash/photo.jpg''" by code_simp
  have 9: "filter extension_has_stem [''a b.JPG'', ''sub/c.png''] = [''a b.JPG'', ''sub/c.png'']"
    by code_simp
  from listing_returns_accepted_identifiers [OF 1 2 3 4 5] 5 6 7 8 9
  show ?thesis by simp
qed

text \<open>
  The listing of \<open>a.jpg\<close>, \<open>.jpg\<close> and \<open>x/.PNG\<close> has three entries, all of which decode,
  end in an allowed extension and match no exclusion pattern; the result holds only
  \<open>a.jpg\<close>.
\<close>

theorem listing_with_extension_only_names_counterexample:
  "length (match_all_href dotfile_listing) = 3 \<and>
   list_all (decodable ''/dav/photos'') (map href_group (match_all_href dotfile_listing)) \<and>
   spec_listImages ''/dav/photos'' example_patterns
       (map href_group (match_all_href dotfile_listing)) = [''a.jpg'', ''.jpg'', ''x/.PNG''] \<and>
   parseImageListFromResponse example_host dotfile_listing example_helper =
      Returns [''a.jpg''] example_helper"
  by code_simp

subsection \<open>A repeated image request\<close>

lemma handleImageDataResponse_frame:
  "\<exists>s'. handleImageDataResponse h response chunks fname cacheKey s = Returns () s' \<and>
     requests s' = requests s \<and> config s' = config s \<and>
     (imageCache s' = imageCache s \<or>
      (\<exists>imageData. imageCache s' = cache_store cacheKey imageData (imageCache s)))"
proof (cases "statusCode response < 400")
  case True
  from handleImageDataResponse_cache [OF True, of h chunks fname cacheKey s]
  show ?thesis by auto
next
  case False
  then show ?thesis
    by (simp add: handleImageDataResponse_def sendSocketNotification_def Log_def)
qed

lemma map_of_cache_store:
  "length cache \<le> 50 \<Longrightarrow>
   map_of (cache_store k' d' cache) k = (if k = k' then Some d' else map_of cache k)"
  by (simp add: cache_store_def update_conv')

lemma length_update_le: "length (AList.update k v al) \<le> Suc (length al)"
  by (induction al) auto

lemma length_cache_store:
  "length cache \<le> 50 \<Longrightarrow> length (cache_store k' d' cache) \<le> Suc (length cache)"
  by (simp add: cache_store_def length_update_le)

lemma handle_responses_keeps:
  "map_of (imageCache s) k = Some d0 \<Longrightarrow> length (imageCache s) + length rs \<le> 51 \<Longrightarrow>
   \<exists>d. map_of (imageCache (handle_responses h rs s)) k = Some d \<and>
       config (handle_responses h rs s) = config s \<and>
       requests (handle_responses h rs s) = requests s"
proof (induction rs arbitrary: s d0)
  case Nil
  then show ?case by simp
next
  case (Cons a rs)
  obtain response chunks fname cacheKey where a: "a = (response, chunks, fname, cacheKey)"
    by (cases a) auto
  obtain s' where s': "handleImageDataResponse h response chunks fname cacheKey s = Returns () s'"
    and fr: "requests s' = requests s" "config s' = config s"
    and c: "imageCache s' = imageCache s \<or>
      (\<exists>imageData. imageCache s' = cache_store cacheKey imageData (imageCache s))"
    using handleImageDataResponse_frame [of h response chunks fname cacheKey s] by blast
  from Cons.prems have le: "length (imageCache s) \<le> 50" by simp
  from c le Cons.prems(1) have "\<exists>d1. map_of (imageCache s') k = Some d1"
    by (auto simp: map_of_cache_store)
  then obtain d1 where d1: "map_of (imageCache s') k = Some d1" ..
  from c le have "length (imageCache s') \<le> Suc (length (imageCache s))"
    using length_cache_store [OF le] by auto
  with Cons.prems have "length (imageCache s') + length rs \<le> 51" by simp
  from Cons.IH [OF d1 this] a s' fr show ?case by simp
qed

lemma fetchImageData_miss:
  assumes "config s = Some c" and "repositoryConfig c = Some r"
    and "request_ok h (path r @ ''/'' @ encodeURIComponent (js_string fname))"
    and "map_of (imageCache s) (cacheKey_of c fname) = None"
  shows "\<exists>s1. fetchImageData h \<lparr>request_filename = fname, request_index = i\<rparr> s = Returns () s1 \<and>
     requests s1 = requests s @
       [\<lparr>req_method = ''GET'', req_url = path r @ ''/'' @ encodeURIComponent (js_string fname),
         req_headers = [(''Authorization'', createAuthHeader h r)], req_timeout = 60000\<rparr>] \<and>
     sent s1 = sent s \<and> imageCache s1 = imageCache s \<and> config s1 = config s"
  using assms by (simp add: fetchImageData_def Let_def Log_def https_request_def)

lemma fetchImageData_hit:
  assumes "config s = Some c" and "map_of (imageCache s) (cacheKey_of c fname) = Some d"
  shows "\<exists>s1. fetchImageData h \<lparr>request_filename = fname, request_index = i\<rparr> s = Returns () s1 \<and>
     requests s1 = requests s \<and> sent s1 = sent s @ [IMAGE_DATA_RECEIVED d] \<and>
     imageCache s1 = imageCache s"
  using assms by (simp add: fetchImageData_def Let_def Log_def sendSocketNotification_def)

text \<open>
  C7. An image is requested whose key is not in the cache: one GET is issued. Its response
  arrives below 400 and is stored. Other image responses may then be handled, as long as
  the cache does not come to hold more than 50 entries before one of them is stored. A
  second request for the same file, under the same configuration, then finds the key,
  sends the stored entry as \<open>IMAGE_DATA_RECEIVED\<close> and issues no request: one request in
  all.
\<close>

theorem repeated_fetch_uses_one_request:
  assumes "config s = Some c" and "repositoryConfig c = Some r"
    and "request_ok h (path r @ ''/'' @ encodeURIComponent (js_string fname))"
    and "map_of (imageCache s) (cacheKey_of c fname) = None"
    and "statusCode response < 400"
    and "length (imageCache s) + length others \<le> 50"
  shows "\<exists>s1 s2 s3 d.
     fetchImageData h \<lparr>request_filename = fname, request_index = i\<rparr> s = Returns () s1 \<and>
     length (requests s1) = Suc (length (requests s)) \<and>
     handleImageDataResponse h response chunks fname (cacheKey_of c fname) s1 = Returns () s2 \<and>
     map_of (imageCache (handle_responses h others s2)) (cacheKey_of c fname) = Some d \<and>
     fetchImageData h \<lparr>request_filename = fname, request_index = j\<rparr>
       (handle_responses h others s2) = Returns () s3 \<and>
     requests s3 = requests s1 \<and>
     sent s3 = sent (handle_responses h others s2) @ [IMAGE_DATA_RECEIVED d]"
proof -
  obtain s1 where 1: "fetchImageData h \<lparr>request_filename = fname, request_index = i\<rparr> s = Returns () s1"
    and r1: "length (requests s1) = Suc (length (requests s))"
    and f1: "imageCache s1 = imageCache s" "config s1 = config s"
    using fetchImageData_miss [OF assms(1-4), of i] by auto
  obtain d0 s2 where 2: "handleImageDataResponse h response chunks fname (cacheKey_of c fname) s1 = Returns () s2"
    and c2: "imageCache s2 = cache_store (cacheKey_of c fname) d0 (imageCache s1)"
    and f2: "requests s2 = requests s1" "config s2 = config s1"
    using handleImageDataResponse_cache [OF assms(5), of h chunks fname "cacheKey_of c fname" s1] by blast
  from assms(6) f1 have le: "length (imageCache s1) \<le> 50" by simp
  have m2: "map_of (imageCache s2) (cacheKey_of c fname) = Some d0"
    using c2 le by (simp add: map_of_cache_store)
  have "length (imageCache s2) \<le> Suc (length (imageCache s1))"
    using c2 length_cache_store [OF le] by simp
  with assms(6) f1 have "length (imageCache s2) + length others \<le> 51" by simp
  from handle_responses_keeps [OF m2 this, of h]
  obtain d where m3: "map_of (imageCache (handle_responses h others s2)) (cacheKey_of c fname) = Some d"
    and f3: "config (handle_responses h others s2) = config s2"
       "requests (handle_responses h others s2) = requests s2"
    by blast
  from f3 f2 f1 assms(1) have "config (handle_responses h others s2) = Some c" by simp
  from fetchImageData_hit [OF this m3, of h j]
  obtain s3 where 3: "fetchImageData h \<lparr>request_filename = fname, request_index = j\<rparr>
       (handle_responses h others s2) = Returns () s3"
    and f4: "requests s3 = requests (handle_responses h others s2)"
      "sent s3 = sent (handle_responses h others s2) @ [IMAGE_DATA_RECEIVED d]"
    by blast
  from 1 r1 2 m3 3 f4 f3 f2 show ?thesis by auto
qed

theorem repeated_fetch_uses_one_request_witness:
  "\<exists>s1 s2 s3 d.
     fetchImageData example_host \<lparr>request_filename = Some ''a.jpg'', request_index = 0\<rparr>
       example_helper = Returns () s1 \<and>
     length (requests s1) = Suc (length (requests example_helper)) \<and>
     handleImageDataResponse example_host ok_response [[1]] (Some ''a.jpg'')
       (cacheKey_of example_config (Some ''a.jpg'')) s1 = Returns () s2 \<and>
     map_of (imageCache (handle_responses example_host
               [(ok_response, [], Some ''b.jpg'', ''b.jpg_400_400'')] s2))
       (cacheKey_of example_config (Some ''a.jpg'')) = Some d \<and>
     fetchImageData example_host \<lparr>request_filename = Some ''a.jpg'', request_index = 0\<rparr>
       (handle_responses example_host [(ok_response, [], Some ''b.jpg'', ''b.jpg_400_400'')] s2)
       = Returns () s3 \<and>
     requests s3 = requests s1 \<and>
     sent s3 = sent (handle_responses example_host
                       [(ok_response, [], Some ''b.jpg'', ''b.jpg_400_400'')] s2)
               @ [IMAGE_DATA_RECEIVED d]"
proof -
  have 1: "config example_helper = Some example_config"
    by (simp add: example_helper_def)
  have 2: "repositoryConfig example_config = Some example_repository"
    by (simp add: example_config_def)
  have 3: "request_ok example_host
             (path example_repository @ ''/'' @ encodeURIComponent (js_string (Some ''a.jpg'')))"
    by code_simp
  have 4: "map_of (imageCache example_helper) (cacheKey_of example_config (Some ''a.jpg'')) = None"
    by (simp add: example_helper_def)
  have 5: "statusCode ok_response < 400"
    by (simp add: ok_response_def)
  have 6: "length (imageCache example_helper)
           + length [(ok_response, [] :: Buffer list, Some ''b.jpg'', ''b.jpg_400_400'')] \<le> 50"
    by (simp add: example_helper_def)
  show ?thesis
    by (rule repeated_fetch_uses_one_request [OF 1 2 3 4 5 6])
qed


subsection \<open>Failures of metadata extraction and geocoding\<close>

text \<open>
  C8. For every buffer \<open>extractExifData\<close> returns a record and does not throw, and the
  record has no location when it is returned; when the EXIF parser throws, every field of
  the record is empty. A rejected geocoding promise leaves the record as it is, and a
  geocoding response without any of the address fields rejects with
  \<open>No location found\<close>. A response below 400 therefore always ends in
  \<open>IMAGE_DATA_RECEIVED\<close>, whatever the metadata, never in an error.
\<close>

theorem metadata_failures_are_swallowed:
  "(\<exists>x s1. extractExifData h buffer s = Returns () (x, s1) \<and> location x = None) \<and>
   (exif_parse h buffer = Inl e \<longrightarrow>
      (\<exists>s1. extractExifData h buffer s = Returns () (empty_exif, s1))) \<and>
   geocode_settled oid (Inl e') (x, s) = (x, Log Debug ''Reverse geocoding failed'' s) \<and>
   (json_address h body = Inr address \<and> first_truthy address address_preference = None \<longrightarrow>
      reverseGeocode_end h body = Inl (Error ''No location found'')) \<and>
   (statusCode response < 400 \<longrightarrow>
      (\<exists>imageData s'.
         handleImageDataResponse h response chunks fname cacheKey s = Returns () s' \<and>
         sent s' = sent s @ [IMAGE_DATA_RECEIVED imageData] \<and>
         location (exifData imageData) = None))"
proof (intro conjI impI)
  show "\<exists>x s1. extractExifData h buffer s = Returns () (x, s1) \<and> location x = None"
    using extractExifData_returns [of h buffer s] by blast
next
  assume "exif_parse h buffer = Inl e"
  then show "\<exists>s1. extractExifData h buffer s = Returns () (empty_exif, s1)"
    by (simp add: extractExifData_def extractExifData_try_def try_catch_def)
next
  show "geocode_settled oid (Inl e') (x, s) = (x, Log Debug ''Reverse geocoding failed'' s)"
    by (simp add: geocode_settled_def)
next
  assume "json_address h body = Inr address \<and> first_truthy address address_preference = None"
  then show "reverseGeocode_end h body = Inl (Error ''No location found'')"
    by (simp add: reverseGeocode_end_def)
next
  assume "statusCode response < 400"
  from handleImageDataResponse_cache [OF this, of h chunks fname cacheKey s]
  show "\<exists>imageData s'.
         handleImageDataResponse h response chunks fname cacheKey s = Returns () s' \<and>
         sent s' = sent s @ [IMAGE_DATA_RECEIVED imageData] \<and>
         location (exifData imageData) = None"
    by blast
qed


theorem metadata_failures_are_swallowed_witness:
  "(\<exists>x s1. extractExifData example_host [2] example_helper = Returns () (x, s1) \<and>
            location x = None) \<and>
   exif_parse example_host [2] = Inl (Error ''Invalid JPEG section offset'') \<and>
   (\<exists>s1. extractExifData example_host [2] example_helper = Returns () (empty_exif, s1)) \<and>
   reverseGeocode_end example_host ''{}'' = Inl (Error ''No location found'') \<and>
   geocode_settled 0 (Inl (Error ''No location found'')) (empty_exif, example_helper) =
     (empty_exif, Log Debug ''Reverse geocoding failed'' example_helper) \<and>
   (\<exists>imageData s'.
      handleImageDataResponse example_host ok_response [[2]] (Some ''a.jpg'') ''a.jpg_400_400''
        example_helper = Returns () s' \<and>
      sent s' = sent example_helper @ [IMAGE_DATA_RECEIVED imageData] \<and>
      location (exifData imageData) = None)"
proof -
  have 1: "exif_parse example_host [2] = Inl (Error ''Invalid JPEG section offset'')"
    by (simp add: example_host_def)
  have 2: "json_address example_host ''{}'' = Inr (\<lambda>k. None) \<and>
           first_truthy (\<lambda>k. None) address_preference = None"
    by (simp add: example_host_def address_preference_def)
  have 3: "statusCode ok_response < 400"
    by (simp add: ok_response_def)
  from metadata_failures_are_swallowed
         [where h = example_host and buffer = "[2]" and s = example_helper
            and e = "Error ''Invalid JPEG section offset''" and oid = 0
            and e' = "Error ''No location found''" and x = empty_exif and body = "''{}''"
            and address = "\<lambda>k. None" and response = ok_response and chunks = "[[2]]"
            and fname = "Some ''a.jpg''" and cacheKey = "''a.jpg_400_400''"] 1 2 3
  show ?thesis by simp
qed

subsection \<open>Requests before the configuration is initialised\<close>

text \<open>
  C10. \<open>fetchImageList\<close> tests \<open>isInitialized\<close>: before initialisation it logs an error
  and returns, with no request and no notification. \<open>fetchImageData\<close> has no such test:
  with the configuration still \<open>null\<close> it throws a \<open>TypeError\<close> when it builds the cache
  key, having only logged the file name.
\<close>

theorem image_fetch_lacks_initialization_guard:
  "(\<not> isInitialized s \<longrightarrow>
      fetchImageList h s =
        Returns () (Log LogError ''Helper not initialized, cannot fetch image list'' s)) \<and>
   (config s = None \<longrightarrow>
      fetchImageData h imageRequest s =
        Throws TypeError
          (Log Debug (''Fetching image data for: '' @ js_string (request_filename imageRequest)) s))"
  by (simp add: fetchImageList_def fetchImageData_def Let_def Log_def)

theorem image_fetch_lacks_initialization_guard_witness:
  "\<not> isInitialized start \<and> config start = None \<and>
   fetchImageList example_host start =
     Returns () (Log LogError ''Helper not initialized, cannot fetch image list'' start) \<and>
   fetchImageData example_host \<lparr>request_filename = Some ''a.jpg'', request_index = 0\<rparr> start =
     Throws TypeError (Log Debug ''Fetching image data for: a.jpg'' start)"
proof -
  have 1: "\<not> isInitialized start" and 2: "config start = None"
    by (simp_all add: start_def)
  from image_fetch_lacks_initialization_guard
         [of start example_host "\<lparr>request_filename = Some ''a.jpg'', request_index = 0\<rparr>"] 1 2
  show ?thesis by (simp add: js_string_def)
qed

section \<open>Properties of the module\<close>

subsection \<open>Auxiliary facts\<close>

text \<open>An advance in sequential mode, when no animation is in progress and the list is not empty.\<close>

lemma loadNextImage_sequential:
  assumes "\<not> random (mconfig s)" and "\<not> animationInProgress s" and "imageList s \<noteq> []"
  shows "loadNextImage rnd direction s =
     Some (module_send
             (FETCH_IMAGE
                \<lparr>request_filename =
                   element_at (imageList s)
                     (sequential_index direction (length (imageList s)) (currentImageIndex s)),
                 request_index =
                   sequential_index direction (length (imageList s)) (currentImageIndex s)\<rparr>)
             (Log Debug
                (''Loading image: '' @
                 js_string (element_at (imageList s)
                   (sequential_index direction (length (imageList s)) (currentImageIndex s))))
                (s\<lparr>currentImageIndex :=
                     sequential_index direction (length (imageList s)) (currentImageIndex s)\<rparr>)))"
  using assms by (simp add: loadNextImage_def getNextImageFromList_def)




lemma random_index_result:
  assumes "random_index rnd k len cur = Some y"
  shows "\<exists>n. y = (draw rnd len (k + n), Suc (k + n)) \<and>
             (1 < len \<longrightarrow> draw rnd len (k + n) \<noteq> cur \<and> (\<forall>j<n. draw rnd len (k + j) = cur))"
proof (rule random_index.raw_induct
    [where P = "\<lambda>rnd k len cur y. \<exists>n. y = (draw rnd len (k + n), Suc (k + n)) \<and>
             (1 < len \<longrightarrow> draw rnd len (k + n) \<noteq> cur \<and> (\<forall>j<n. draw rnd len (k + j) = cur))",
     OF _ assms])
  fix f :: "(nat \<Rightarrow> real) \<Rightarrow> nat \<Rightarrow> nat \<Rightarrow> int \<Rightarrow> (int \<times> nat) option"
    and rnd k len cur y
  assume IH: "\<And>rnd k len cur y. f rnd k len cur = Some y \<Longrightarrow>
     \<exists>n. y = (draw rnd len (k + n), Suc (k + n)) \<and>
             (1 < len \<longrightarrow> draw rnd len (k + n) \<noteq> cur \<and> (\<forall>j<n. draw rnd len (k + j) = cur))"
    and step: "(let targetIndex = \<lfloor>rnd k * real len\<rfloor>
                in if 1 < len \<and> targetIndex = cur then f rnd (Suc k) len cur
                   else Some (targetIndex, Suc k)) = Some y"
  show "\<exists>n. y = (draw rnd len (k + n), Suc (k + n)) \<and>
             (1 < len \<longrightarrow> draw rnd len (k + n) \<noteq> cur \<and> (\<forall>j<n. draw rnd len (k + j) = cur))"
  proof (cases "1 < len \<and> draw rnd len k = cur")
    case True
    with step have "f rnd (Suc k) len cur = Some y" by (simp add: draw_def Let_def)
    from IH [OF this] obtain n where n: "y = (draw rnd len (Suc k + n), Suc (Suc k + n))"
      "draw rnd len (Suc k + n) \<noteq> cur" "\<forall>j<n. draw rnd len (Suc k + j) = cur"
      using True by auto
    have "\<forall>j<Suc n. draw rnd len (k + j) = cur"
    proof (intro allI impI)
      fix j assume "j < Suc n"
      then show "draw rnd len (k + j) = cur"
        using True n(3) by (cases j) auto
    qed
    with n(1,2) show ?thesis by (intro exI [of _ "Suc n"]) simp
  next
    case False
    with step have "y = (draw rnd len k, Suc k)" by (auto simp: draw_def Let_def)
    with False show ?thesis by (intro exI [of _ 0]) auto
  qed
qed

lemma random_index_never_returns:
  assumes "1 < len" and "\<forall>j. draw rnd len (k + j) = cur"
  shows "random_index rnd k len cur = None"
proof (cases "random_index rnd k len cur")
  case None
  then show ?thesis .
next
  case (Some y)
  from random_index_result [OF Some] assms show ?thesis by auto
qed

subsection \<open>Sequential navigation\<close>

text \<open>
  C4. In sequential mode, with no animation in progress and a list that is not empty:
  \<open>next\<close> from the last index requests index 0, the first image; \<open>previous\<close> from
  index 0 requests the last index, the last image; and over the list \<open>a.jpg\<close>, \<open>b.jpg\<close>,
  \<open>c.jpg\<close> from the starting index -1, \<open>next\<close> requests \<open>a.jpg\<close>, \<open>next\<close> again
  requests \<open>b.jpg\<close>, and \<open>previous\<close> then requests \<open>a.jpg\<close>.
\<close>

theorem sequential_advance_wraps:
  assumes "\<not> random (mconfig s)" and "\<not> animationInProgress s" and "imageList s \<noteq> []"
  shows "(currentImageIndex s = int (length (imageList s)) - 1 \<longrightarrow>
            (\<exists>s'. loadNextImage rnd ''next'' s = Some s' \<and> currentImageIndex s' = 0 \<and>
               sentToHelper s' = sentToHelper s @
                 [FETCH_IMAGE \<lparr>request_filename = Some (hd (imageList s)), request_index = 0\<rparr>])) \<and>
         (currentImageIndex s = 0 \<longrightarrow>
            (\<exists>s'. loadNextImage rnd ''previous'' s = Some s' \<and>
               currentImageIndex s' = int (length (imageList s)) - 1 \<and>
               sentToHelper s' = sentToHelper s @
                 [FETCH_IMAGE \<lparr>request_filename = Some (last (imageList s)),
                               request_index = int (length (imageList s)) - 1\<rparr>])) \<and>
         (imageList s = [''a.jpg'', ''b.jpg'', ''c.jpg''] \<and> currentImageIndex s = - 1 \<longrightarrow>
            (\<exists>s1 s2 s3.
               loadNextImage rnd ''next'' s = Some s1 \<and>
               sentToHelper s1 = sentToHelper s @
                 [FETCH_IMAGE \<lparr>request_filename = Some ''a.jpg'', request_index = 0\<rparr>] \<and>
               loadNextImage rnd ''next'' s1 = Some s2 \<and>
               sentToHelper s2 = sentToHelper s1 @
                 [FETCH_IMAGE \<lparr>request_filename = Some ''b.jpg'', request_index = 1\<rparr>] \<and>
               loadNextImage rnd ''previous'' s2 = Some s3 \<and>
               sentToHelper s3 = sentToHelper s2 @
                 [FETCH_IMAGE \<lparr>request_filename = Some ''a.jpg'', request_index = 0\<rparr>]))"
proof (intro conjI impI)
  assume "currentImageIndex s = int (length (imageList s)) - 1"
  with assms show "\<exists>s'. loadNextImage rnd ''next'' s = Some s' \<and> currentImageIndex s' = 0 \<and>
               sentToHelper s' = sentToHelper s @
                 [FETCH_IMAGE \<lparr>request_filename = Some (hd (imageList s)), request_index = 0\<rparr>]"
    by (simp add: loadNextImage_sequential sequential_index_def module_send_def Log_def
        element_at_def hd_conv_nth)
next
  assume "currentImageIndex s = 0"
  with assms show "\<exists>s'. loadNextImage rnd ''previous'' s = Some s' \<and>
               currentImageIndex s' = int (length (imageList s)) - 1 \<and>
               sentToHelper s' = sentToHelper s @
                 [FETCH_IMAGE \<lparr>request_filename = Some (last (imageList s)),
                               request_index = int (length (imageList s)) - 1\<rparr>]"
    by (simp add: loadNextImage_sequential sequential_index_def module_send_def Log_def
        element_at_def last_conv_nth nat_diff_distrib')
next
  assume a: "imageList s = [''a.jpg'', ''b.jpg'', ''c.jpg''] \<and> currentImageIndex s = - 1"
  define t1 where "t1 = module_send
      (FETCH_IMAGE \<lparr>request_filename = Some ''a.jpg'', request_index = 0\<rparr>)
      (Log Debug ''Loading image: a.jpg'' (s\<lparr>currentImageIndex := 0\<rparr>))"
  define t2 where "t2 = module_send
      (FETCH_IMAGE \<lparr>request_filename = Some ''b.jpg'', request_index = 1\<rparr>)
      (Log Debug ''Loading image: b.jpg'' (t1\<lparr>currentImageIndex := 1\<rparr>))"
  have p1: "\<not> random (mconfig t1)" "\<not> animationInProgress t1" "imageList t1 = imageList s"
    "currentImageIndex t1 = 0"
    using assms by (simp_all add: t1_def module_send_def Log_def)
  have p2: "\<not> random (mconfig t2)" "\<not> animationInProgress t2" "imageList t2 = imageList s"
    "currentImageIndex t2 = 1"
    using p1 by (simp_all add: t2_def module_send_def Log_def)
  have 1: "loadNextImage rnd ''next'' s = Some t1"
    using assms a
    by (simp add: loadNextImage_sequential sequential_index_def element_at_def js_string_def
        t1_def)
  have 2: "loadNextImage rnd ''next'' t1 = Some t2"
    using p1 a
    by (simp add: loadNextImage_sequential sequential_index_def element_at_def js_string_def
        t2_def)
  have 3: "\<exists>s3. loadNextImage rnd ''previous'' t2 = Some s3 \<and>
             sentToHelper s3 = sentToHelper t2 @
               [FETCH_IMAGE \<lparr>request_filename = Some ''a.jpg'', request_index = 0\<rparr>]"
    using p2 a
    by (simp add: loadNextImage_sequential sequential_index_def element_at_def js_string_def
        module_send_def Log_def)
  have s1: "sentToHelper t1 = sentToHelper s @
                 [FETCH_IMAGE \<lparr>request_filename = Some ''a.jpg'', request_index = 0\<rparr>]"
    by (simp add: t1_def module_send_def Log_def)
  have s2: "sentToHelper t2 = sentToHelper t1 @
                 [FETCH_IMAGE \<lparr>request_filename = Some ''b.jpg'', request_index = 1\<rparr>]"
    by (simp add: t2_def module_send_def Log_def)
  from 1 2 3 s1 s2 show "\<exists>s1 s2 s3.
               loadNextImage rnd ''next'' s = Some s1 \<and>
               sentToHelper s1 = sentToHelper s @
                 [FETCH_IMAGE \<lparr>request_filename = Some ''a.jpg'', request_index = 0\<rparr>] \<and>
               loadNextImage rnd ''next'' s1 = Some s2 \<and>
               sentToHelper s2 = sentToHelper s1 @
                 [FETCH_IMAGE \<lparr>request_filename = Some ''b.jpg'', request_index = 1\<rparr>] \<and>
               loadNextImage rnd ''previous'' s2 = Some s3 \<and>
               sentToHelper s3 = sentToHelper s2 @
                 [FETCH_IMAGE \<lparr>request_filename = Some ''a.jpg'', request_index = 0\<rparr>]"
    by blast
qed

theorem sequential_advance_wraps_witness:
  "(\<exists>s'. loadNextImage (\<lambda>k. 0) ''next'' (example_module\<lparr>currentImageIndex := 2\<rparr>) = Some s' \<and>
          currentImageIndex s' = 0 \<and>
          sentToHelper s' = [FETCH_IMAGE \<lparr>request_filename = Some ''a.jpg'', request_index = 0\<rparr>]) \<and>
   (\<exists>s'. loadNextImage (\<lambda>k. 0) ''previous'' (example_module\<lparr>currentImageIndex := 0\<rparr>) = Some s' \<and>
          currentImageIndex s' = 2 \<and>
          sentToHelper s' = [FETCH_IMAGE \<lparr>request_filename = Some ''c.jpg'', request_index = 2\<rparr>]) \<and>
   (\<exists>s1 s2 s3.
      loadNextImage (\<lambda>k. 0) ''next'' example_module = Some s1 \<and>
      sentToHelper s1 = [FETCH_IMAGE \<lparr>request_filename = Some ''a.jpg'', request_index = 0\<rparr>] \<and>
      loadNextImage (\<lambda>k. 0) ''next'' s1 = Some s2 \<and>
      sentToHelper s2 = sentToHelper s1 @
        [FETCH_IMAGE \<lparr>request_filename = Some ''b.jpg'', request_index = 1\<rparr>] \<and>
      loadNextImage (\<lambda>k. 0) ''previous'' s2 = Some s3 \<and>
      sentToHelper s3 = sentToHelper s2 @
        [FETCH_IMAGE \<lparr>request_filename = Some ''a.jpg'', request_index = 0\<rparr>])"
proof -
  have a: "\<not> random (mconfig (example_module\<lparr>currentImageIndex := i\<rparr>))"
    "\<not> animationInProgress (example_module\<lparr>currentImageIndex := i\<rparr>)"
    "imageList (example_module\<lparr>currentImageIndex := i\<rparr>) \<noteq> []" for i
    by (simp_all add: example_module_def example_config_def)
  have b: "\<not> random (mconfig example_module)" "\<not> animationInProgress example_module"
    "imageList example_module \<noteq> []"
    by (simp_all add: example_module_def example_config_def)
  have c: "imageList example_module = [''a.jpg'', ''b.jpg'', ''c.jpg'']"
    "currentImageIndex example_module = - 1" "sentToHelper example_module = []"
    by (simp_all add: example_module_def)
  from sequential_advance_wraps [OF a, of 2 "\<lambda>k. 0"]
  have 1: "\<exists>s'. loadNextImage (\<lambda>k. 0) ''next'' (example_module\<lparr>currentImageIndex := 2\<rparr>) = Some s' \<and>
          currentImageIndex s' = 0 \<and>
          sentToHelper s' = [FETCH_IMAGE \<lparr>request_filename = Some ''a.jpg'', request_index = 0\<rparr>]"
    by (simp add: example_module_def)
  from sequential_advance_wraps [OF a, of 0 "\<lambda>k. 0"]
  have 2: "\<exists>s'. loadNextImage (\<lambda>k. 0) ''previous'' (example_module\<lparr>currentImageIndex := 0\<rparr>) = Some s' \<and>
          currentImageIndex s' = 2 \<and>
          sentToHelper s' = [FETCH_IMAGE \<lparr>request_filename = Some ''c.jpg'', request_index = 2\<rparr>]"
    by (simp add: example_module_def)
  from sequential_advance_wraps [OF b, of "\<lambda>k. 0"] c
  have 3: "\<exists>s1 s2 s3.
      loadNextImage (\<lambda>k. 0) ''next'' example_module = Some s1 \<and>
      sentToHelper s1 = [FETCH_IMAGE \<lparr>request_filename = Some ''a.jpg'', request_index = 0\<rparr>] \<and>
      loadNextImage (\<lambda>k. 0) ''next'' s1 = Some s2 \<and>
      sentToHelper s2 = sentToHelper s1 @
        [FETCH_IMAGE \<lparr>request_filename = Some ''b.jpg'', request_index = 1\<rparr>] \<and>
      loadNextImage (\<lambda>k. 0) ''previous'' s2 = Some s3 \<and>
      sentToHelper s3 = sentToHelper s2 @
        [FETCH_IMAGE \<lparr>request_filename = Some ''a.jpg'', request_index = 0\<rparr>]"
    by simp
  from 1 2 3 show ?thesis by blast
qed

subsection \<open>Random navigation\<close>



subsection \<open>An advance during an animation\<close>




subsection \<open>The index after a failed fetch\<close>

text \<open>
  C9. An advance that is not dropped stores the new index before it sends
  \<open>FETCH_IMAGE\<close>: the notification is sent from the state \<open>getNextImageFromList\<close> has
  left, whose current index is the requested one. An \<open>ERROR\<close> notification that follows
  leaves the index and the notifications as they are, and in sequential mode the next
  advance goes on from the index of the failed request.
\<close>

theorem index_committed_and_not_restored:
  assumes "\<not> animationInProgress s"
    and "getNextImageFromList rnd direction s = Some (Some req, s0)"
  shows "currentImageIndex s0 = request_index req \<and>
         loadNextImage rnd direction s =
           Some (module_send (FETCH_IMAGE req)
                   (Log Debug (''Loading image: '' @ js_string (request_filename req)) s0)) \<and>
         (\<exists>s1 s2. loadNextImage rnd direction s = Some s1 \<and>
            currentImageIndex s1 = request_index req \<and>
            sentToHelper s1 = sentToHelper s @ [FETCH_IMAGE req] \<and>
            module_socketNotificationReceived rnd (ERROR payload) s1 = Some s2 \<and>
            currentImageIndex s2 = request_index req \<and>
            sentToHelper s2 = sentToHelper s1 \<and>
            (\<not> random (mconfig s) \<longrightarrow>
               (\<exists>s3. loadNextImage rnd ''next'' s2 = Some s3 \<and>
                  currentImageIndex s3 =
                    sequential_index ''next'' (length (imageList s)) (request_index req))))"
proof -
  from assms(2) have ne: "imageList s \<noteq> []"
    by (auto simp: getNextImageFromList_def)
  from assms(2) have idx: "currentImageIndex s0 = request_index req"
    and same: "imageList s0 = imageList s" "mconfig s0 = mconfig s"
      "animationInProgress s0 = animationInProgress s" "sentToHelper s0 = sentToHelper s"
    by (auto simp: getNextImageFromList_def split: if_splits option.splits)
  define s1 where "s1 = module_send (FETCH_IMAGE req)
                   (Log Debug (''Loading image: '' @ js_string (request_filename req)) s0)"
  define s2 where "s2 = showErrorMessage (message payload) (Log LogError ''Error from node helper'' s1)"
  from assms ne have l: "loadNextImage rnd direction s = Some s1"
    by (simp add: loadNextImage_def s1_def)
  have p1: "currentImageIndex s1 = request_index req" "sentToHelper s1 = sentToHelper s @ [FETCH_IMAGE req]"
    "imageList s1 = imageList s" "mconfig s1 = mconfig s" "\<not> animationInProgress s1"
    using idx same assms(1) by (simp_all add: s1_def module_send_def Log_def)
  have e: "module_socketNotificationReceived rnd (ERROR payload) s1 = Some s2"
    by (simp add: module_socketNotificationReceived_def s2_def)
  have p2: "currentImageIndex s2 = request_index req" "sentToHelper s2 = sentToHelper s1"
    "imageList s2 = imageList s" "mconfig s2 = mconfig s" "\<not> animationInProgress s2"
    using p1 by (simp_all add: s2_def showErrorMessage_def Log_def)
  have n: "\<not> random (mconfig s) \<longrightarrow>
               (\<exists>s3. loadNextImage rnd ''next'' s2 = Some s3 \<and>
                  currentImageIndex s3 =
                    sequential_index ''next'' (length (imageList s)) (request_index req))"
  proof
    assume "\<not> random (mconfig s)"
    with p2 ne have "\<not> random (mconfig s2)" "\<not> animationInProgress s2" "imageList s2 \<noteq> []"
      by simp_all
    from loadNextImage_sequential [OF this, of rnd "''next''"] p2
    show "\<exists>s3. loadNextImage rnd ''next'' s2 = Some s3 \<and>
                  currentImageIndex s3 =
                    sequential_index ''next'' (length (imageList s)) (request_index req)"
      by (simp add: module_send_def Log_def)
  qed
  from idx l p1 e p2 n show ?thesis unfolding s1_def by blast
qed

theorem index_committed_and_not_restored_witness:
  "\<exists>s1 s2 s3.
     loadNextImage (\<lambda>k. 0) ''next'' example_module = Some s1 \<and>
     currentImageIndex s1 = 0 \<and>
     sentToHelper s1 = [FETCH_IMAGE \<lparr>request_filename = Some ''a.jpg'', request_index = 0\<rparr>] \<and>
     module_socketNotificationReceived (\<lambda>k. 0)
       (ERROR \<lparr>message = ''Failed to fetch image: a.jpg'', details = None\<rparr>) s1 = Some s2 \<and>
     currentImageIndex s2 = 0 \<and>
     loadNextImage (\<lambda>k. 0) ''next'' s2 = Some s3 \<and>
     currentImageIndex s3 = 1"
proof -
  have 1: "\<not> animationInProgress example_module"
    by (simp add: example_module_def)
  have 2: "getNextImageFromList (\<lambda>k. 0) ''next'' example_module =
             Some (Some \<lparr>request_filename = Some ''a.jpg'', request_index = 0\<rparr>,
                   example_module\<lparr>currentImageIndex := 0, randomCalls := 0\<rparr>)"
    by (simp add: getNextImageFromList_def example_module_def example_config_def
        sequential_index_def element_at_def)
  have 3: "\<not> random (mconfig example_module)" "sentToHelper example_module = []"
    "length (imageList example_module) = 3"
    by (simp_all add: example_module_def example_config_def)
  from index_committed_and_not_restored
         [OF 1 2, of "\<lparr>message = ''Failed to fetch image: a.jpg'', details = None\<rparr>",
          THEN conjunct2, THEN conjunct2] 3
  have "\<exists>s1 s2. loadNextImage (\<lambda>k. 0) ''next'' example_module = Some s1 \<and>
          currentImageIndex s1 = 0 \<and>
          sentToHelper s1 = [FETCH_IMAGE \<lparr>request_filename = Some ''a.jpg'', request_index = 0\<rparr>] \<and>
          module_socketNotificationReceived (\<lambda>k. 0)
            (ERROR \<lparr>message = ''Failed to fetch image: a.jpg'', details = None\<rparr>) s1 = Some s2 \<and>
          currentImageIndex s2 = 0 \<and> sentToHelper s2 = sentToHelper s1 \<and>
          (\<exists>s3. loadNextImage (\<lambda>k. 0) ''next'' s2 = Some s3 \<and> currentImageIndex s3 = 1)"
    by (simp add: sequential_index_def)
  then obtain s1 s2 s3 where
    "loadNextImage (\<lambda>k. 0) ''next'' example_module = Some s1"
    "currentImageIndex s1 = 0"
    "sentToHelper s1 = [FETCH_IMAGE \<lparr>request_filename = Some ''a.jpg'', request_index = 0\<rparr>]"
    "module_socketNotificationReceived (\<lambda>k. 0)
       (ERROR \<lparr>message = ''Failed to fetch image: a.jpg'', details = None\<rparr>) s1 = Some s2"
    "currentImageIndex s2 = 0"
    "loadNextImage (\<lambda>k. 0) ''next'' s2 = Some s3" "currentImageIndex s3 = 1"
    by blast
  then show ?thesis by (intro exI [of _ s1] exI [of _ s2] exI [of _ s3]) simp
qed

section \<open>Further properties\<close>

subsection \<open>The cache holds at most 51 entries, and evicts the oldest\<close>

lemma length_delete_head:
  "length (AList.delete k ((k, v) # rest)) \<le> length rest"
  by (simp add: AList.delete_eq)

lemma length_cache_store_51:
  "length cache \<le> 51 \<Longrightarrow> length (cache_store k d cache) \<le> 51"
proof (cases "length cache > 50")
  case False
  then show ?thesis using length_update_le [of k d cache] by (simp add: cache_store_def)
next
  case True
  assume "length cache \<le> 51"
  with True obtain k0 v0 rest where c: "cache = (k0, v0) # rest" and r: "length rest \<le> 50"
    by (cases cache) auto
  have "length (AList.delete k0 cache) \<le> 50"
    using length_delete_head [of k0 v0 rest] c r by simp
  then have "length (AList.update k d (AList.delete k0 cache)) \<le> 51"
    using length_update_le [of k d "AList.delete k0 cache"] by simp
  with True c show ?thesis by (simp add: cache_store_def)
qed

text \<open>
  X1. A cache of at most 51 entries holds at most 51 entries after any image response:
  51, not 50, is the bound the code keeps.
\<close>

theorem cache_never_exceeds_51_entries:
  assumes "length (imageCache s) \<le> 51"
  shows "\<exists>s'. handleImageDataResponse h response chunks fname cacheKey s = Returns () s' \<and>
              length (imageCache s') \<le> 51"
  using handleImageDataResponse_frame [of h response chunks fname cacheKey s] assms
    length_cache_store_51 [of "imageCache s" cacheKey]
  by auto

theorem cache_never_exceeds_51_entries_witness:
  "\<exists>s'. handleImageDataResponse example_host ok_response [] (Some ''new.jpg'') ''new.jpg_400_400''
          (example_helper\<lparr>imageCache := example_cache 51\<rparr>) = Returns () s' \<and>
        length (imageCache s') \<le> 51"
proof -
  have 1: "length (imageCache (example_helper\<lparr>imageCache := example_cache 51\<rparr>)) \<le> 51"
    by (simp add: example_cache_def)
  show ?thesis by (rule cache_never_exceeds_51_entries [OF 1])
qed

text \<open>
  X2. When the cache holds 51 entries under distinct keys and the key of a completed
  response is new, the first-inserted entry is evicted and the new one is appended: the
  eviction is in insertion order.
\<close>

theorem cache_evicts_first_inserted_at_51:
  assumes "statusCode response < 400"
    and "length (imageCache s) = 51"
    and "distinct (map fst (imageCache s))"
    and "cacheKey \<notin> fst ` set (imageCache s)"
  shows "\<exists>imageData s'.
     handleImageDataResponse h response chunks fname cacheKey s = Returns () s' \<and>
     imageCache s' = tl (imageCache s) @ [(cacheKey, imageData)] \<and>
     length (imageCache s') = 51"
proof -
  from assms(2) obtain k0 v0 rest where c: "imageCache s = (k0, v0) # rest"
    by (cases "imageCache s") auto
  with assms(3) have "k0 \<notin> fst ` set rest" by auto
  then have d: "AList.delete k0 (imageCache s) = rest" using c by simp
  from assms(4) c have "cacheKey \<notin> fst ` set rest" by auto
  then have "AList.update cacheKey imageData rest = rest @ [(cacheKey, imageData)]" for imageData
    by (rule update_fresh)
  with c d assms(2) have "cache_store cacheKey imageData (imageCache s)
      = tl (imageCache s) @ [(cacheKey, imageData)]" for imageData
    by (simp add: cache_store_def)
  with handleImageDataResponse_cache [OF assms(1), of h chunks fname cacheKey s] assms(2) c
  show ?thesis by auto
qed

theorem cache_evicts_first_inserted_at_51_witness:
  "\<exists>imageData s'.
     handleImageDataResponse example_host ok_response [] (Some ''new.jpg'') ''new.jpg_400_400''
       (example_helper\<lparr>imageCache := example_cache 51\<rparr>) = Returns () s' \<and>
     imageCache s' = tl (example_cache 51) @ [(''new.jpg_400_400'', imageData)] \<and>
     length (imageCache s') = 51 \<and>
     ''img0.jpg_400_400'' \<notin> fst ` set (tl (example_cache 51))"
proof -
  have 1: "statusCode ok_response < 400"
    by (simp add: ok_response_def)
  have 2: "length (imageCache (example_helper\<lparr>imageCache := example_cache 51\<rparr>)) = 51"
    by (simp add: example_cache_def)
  have "distinct (map fst (example_cache 51))"
    by code_simp
  then have 3: "distinct (map fst (imageCache (example_helper\<lparr>imageCache := example_cache 51\<rparr>)))"
    by simp
  have 4: "''new.jpg_400_400''
      \<notin> fst ` set (imageCache (example_helper\<lparr>imageCache := example_cache 51\<rparr>))"
    by (auto simp: example_cache_def)
  have 5: "''img0.jpg_400_400'' \<notin> fst ` set (tl (example_cache 51))"
    by code_simp
  from cache_evicts_first_inserted_at_51 [OF 1 2 3 4, of example_host "[]" "Some ''new.jpg''"] 5
  show ?thesis by simp
qed

subsection \<open>The random loop\<close>

text \<open>
  X3. In random mode over a list of more than one entry, if every draw is the current
  index, \<open>getNextImageFromList\<close> does not return.
\<close>

theorem random_loop_may_not_return:
  assumes "1 < length (imageList s)" and "random (mconfig s)"
    and "\<forall>j. draw rnd (length (imageList s)) (randomCalls s + j) = currentImageIndex s"
  shows "getNextImageFromList rnd direction s = None"
proof -
  from assms(1) have "imageList s \<noteq> []" by auto
  with assms(2) random_index_never_returns [OF assms(1,3)]
  show ?thesis by (simp add: getNextImageFromList_def)
qed

theorem random_loop_may_not_return_witness:
  "getNextImageFromList (\<lambda>k. 1 / 2) ''next''
     (example_module\<lparr>mconfig := example_config\<lparr>random := True\<rparr>,
                     imageList := [''a.jpg'', ''b.jpg''], currentImageIndex := 1\<rparr>) = None"
proof -
  let ?s = "example_module\<lparr>mconfig := example_config\<lparr>random := True\<rparr>,
                     imageList := [''a.jpg'', ''b.jpg''], currentImageIndex := 1\<rparr>"
  have 1: "1 < length (imageList ?s)" and 2: "random (mconfig ?s)"
    by simp_all
  have 3: "\<forall>j. draw (\<lambda>k. 1 / 2) (length (imageList ?s)) (randomCalls ?s + j)
               = currentImageIndex ?s"
    by (simp add: draw_def)
  show ?thesis by (rule random_loop_may_not_return [OF 1 2 3])
qed

subsection \<open>The advance timer after an error\<close>

text \<open>
  X4. The \<open>ERROR\<close> handler of the module sets no timer: the pending timeouts, the timer
  handle, and the running and animation flags are as before. After a failed fetch no
  advance is scheduled.
\<close>

theorem error_does_not_rearm_timer:
  "\<exists>s'. module_socketNotificationReceived rnd (ERROR payload) s = Some s' \<and>
        timeouts s' = timeouts s \<and> updateTimer s' = updateTimer s \<and>
        running s' = running s \<and> animationInProgress s' = animationInProgress s"
  by (simp add: module_socketNotificationReceived_def showErrorMessage_def Log_def)

theorem error_does_not_rearm_timer_witness:
  "\<exists>s'. module_socketNotificationReceived (\<lambda>k. 0)
          (ERROR \<lparr>message = ''Failed to fetch image: a.jpg'', details = None\<rparr>)
          (example_module\<lparr>running := True\<rparr>) = Some s' \<and>
        timeouts s' = [] \<and> running s'"
  using error_does_not_rearm_timer
          [of "\<lambda>k. 0" "\<lparr>message = ''Failed to fetch image: a.jpg'', details = None\<rparr>"
              "example_module\<lparr>running := True\<rparr>"]
  by (auto simp: example_module_def)


subsection \<open>A location found later reaches the cached entry\<close>

text \<open>
  The record a cache entry holds is the record the geocoding handler writes: once the
  promise of record number \<open>oid\<close> is fulfilled, a lookup of a key stored with that record
  shows the location; the other entries are as they were.
\<close>

lemma set_location_in_cache_lookup:
  "map_of (set_location_in_cache oid l objects cache) k =
     map_option (\<lambda>d. if map_of objects k = Some oid
                      then d\<lparr>exifData := (exifData d)\<lparr>location := Some l\<rparr>\<rparr> else d)
       (map_of cache k)"
  by (induction cache) (auto simp: set_location_in_cache_def)

lemma geocode_success_reaches_cache:
  assumes "map_of (exifObjects s) k = Some oid" and "map_of (imageCache s) k = Some d"
  shows "map_of (imageCache (snd (geocode_settled oid (Inr l) (x, s)))) k
           = Some (d\<lparr>exifData := (exifData d)\<lparr>location := Some l\<rparr>\<rparr>)"
  using assms by (simp add: geocode_settled_def set_location_in_cache_lookup)

end
